theory Spec2Isabelle
  imports Complex_Main "HOL-Library.AList"
begin

section \<open>Values, errors and dictionaries\<close>

text \<open>
  The library computes with Python numbers held in pandas and numpy containers. A number
  is modelled by an exact real; rounding of the machine format is outside this model,
  so what is proved here of a sum holds of the program where that sum is not rounded.
  \<open>NaN\<close> is the missing value that pandas puts into a cell for which a row has no entry;
  arithmetic propagates it and every comparison with it is false.
\<close>

datatype cell = Num real | NaN

fun cell_add :: "cell \<Rightarrow> cell \<Rightarrow> cell" where
  "cell_add (Num a) (Num b) = Num (a + b)"
| "cell_add _ _ = NaN"

fun cell_mul :: "cell \<Rightarrow> cell \<Rightarrow> cell" where
  "cell_mul (Num a) (Num b) = Num (a * b)"
| "cell_mul _ _ = NaN"

fun cell_less :: "cell \<Rightarrow> cell \<Rightarrow> bool" where
  "cell_less (Num a) (Num b) = (a < b)"
| "cell_less _ _ = False"

datatype error = KeyError string | IndexError | ValueError

text \<open>
  A Python dict keeps its keys in insertion order; assigning to an existing key keeps the
  key's position. It is an association list, read with \<open>map_of\<close>.
\<close>

type_synonym 'v dict = "(string \<times> 'v) list"

definition dict_keys :: "'v dict \<Rightarrow> string list" where
  "dict_keys d = map fst d"

definition dict_get :: "'v dict \<Rightarrow> string \<Rightarrow> error + 'v" where
  "dict_get d k = (case map_of d k of None \<Rightarrow> Inl (KeyError k) | Some v \<Rightarrow> Inr v)"

definition dict_set :: "'v dict \<Rightarrow> string \<Rightarrow> 'v \<Rightarrow> 'v dict" where
  "dict_set d k v = AList.update k v d"

section \<open>The pandas operations the integrators use\<close>

text \<open>
  A data frame is a list of column names and a list of rows; a row is a dict from the
  column names to cells. \<open>pd_concat\<close> is \<open>pd.concat([a, b], ignore_index=True)\<close>: the
  columns of the result are those of \<open>a\<close> followed by the new ones of \<open>b\<close>, and a row that
  has no entry for a column gets \<open>NaN\<close> there.
\<close>

record dataframe =
  columns :: "string list"
  rows :: "cell dict list"

definition pd_DataFrame_columns :: "string list \<Rightarrow> dataframe" where
  "pd_DataFrame_columns cols = \<lparr>columns = cols, rows = []\<rparr>"

definition pd_DataFrame_dict :: "cell dict \<Rightarrow> dataframe" where
  "pd_DataFrame_dict d = \<lparr>columns = dict_keys d, rows = [d]\<rparr>"

definition reindex :: "string list \<Rightarrow> cell dict \<Rightarrow> cell dict" where
  "reindex cols r = map (\<lambda>c. (c, case map_of r c of None \<Rightarrow> NaN | Some v \<Rightarrow> v)) cols"

definition pd_concat :: "dataframe \<Rightarrow> dataframe \<Rightarrow> dataframe" where
  "pd_concat a b =
     (let cols = columns a @ filter (\<lambda>c. c \<notin> set (columns a)) (columns b)
      in \<lparr>columns = cols, rows = map (reindex cols) (rows a @ rows b)\<rparr>)"

text \<open>\<open>df[c].values[-1]\<close>: the column must exist and the frame must have a row.\<close>

definition last_value :: "dataframe \<Rightarrow> string \<Rightarrow> error + cell" where
  "last_value df c =
     (if c \<notin> set (columns df) then Inl (KeyError c)
      else if rows df = [] then Inl IndexError
      else dict_get (last (rows df)) c)"

text \<open>\<open>df.iloc[-1].to_dict()\<close>\<close>

definition iloc_last :: "dataframe \<Rightarrow> error + cell dict" where
  "iloc_last df = (if rows df = [] then Inl IndexError else Inr (last (rows df)))"

section \<open>ModelBase: the variable registry and the derivative evaluator\<close>

text \<open>
  A derivative function is a Python callable of the current variable values and its
  parameters. It may raise (reading a variable that the snapshot does not have), so it
  returns an error or a cell. The entry of a variable holds the function and its
  parameters; an entry made by \<open>DynamicModel2D\<close> also holds an axis tag.
\<close>

record var_info =
  derivative_function :: "cell dict \<Rightarrow> real dict \<Rightarrow> error + cell"
  parameters :: "real dict"
  axis :: "string option"

record DynamicModel =
  variables :: "var_info dict"

definition DynamicModel_init :: DynamicModel where
  "DynamicModel_init =
     \<lparr>variables = [(''t'', \<lparr>derivative_function = (\<lambda>variables parameters. Inr (Num 1)),
                            parameters = [], axis = None\<rparr>)]\<rparr>"

definition add_variable ::
  "DynamicModel \<Rightarrow> string \<Rightarrow> (cell dict \<Rightarrow> real dict \<Rightarrow> error + cell) \<Rightarrow> real dict \<Rightarrow> DynamicModel"
where
  "add_variable self name f ps =
     self\<lparr>variables := dict_set (variables self) name
             \<lparr>derivative_function = f, parameters = ps, axis = None\<rparr>\<rparr>"

fun compute_derivative_loop :: "var_info dict \<Rightarrow> cell dict \<Rightarrow> cell dict \<Rightarrow> error + cell dict" where
  "compute_derivative_loop [] variable_values derivatives = Inr derivatives"
| "compute_derivative_loop ((variable, info) # rest) variable_values derivatives =
     (case derivative_function info variable_values (parameters info) of
        Inl e \<Rightarrow> Inl e
      | Inr d \<Rightarrow> compute_derivative_loop rest variable_values (dict_set derivatives variable d))"

definition compute_derivative :: "'a DynamicModel_scheme \<Rightarrow> cell dict \<Rightarrow> error + cell dict" where
  "compute_derivative self variable_values =
     compute_derivative_loop (variables self) variable_values []"

section \<open>ModelBase: the fixed-step integrators\<close>

text \<open>
  Lines 67 to 70 (and 101 to 104): the derivatives at the values of the last row, and for
  each variable of the derivatives its value advanced by one step.
\<close>

fun result_values_loop ::
  "string list \<Rightarrow> cell dict \<Rightarrow> cell dict \<Rightarrow> real \<Rightarrow> cell dict \<Rightarrow> error + cell dict" where
  "result_values_loop [] variable_values_t derivatives dt result_values = Inr result_values"
| "result_values_loop (variable # vs) variable_values_t derivatives dt result_values =
     (case dict_get variable_values_t variable of
        Inl e \<Rightarrow> Inl e
      | Inr x \<Rightarrow>
          (case dict_get derivatives variable of
             Inl e \<Rightarrow> Inl e
           | Inr d \<Rightarrow> result_values_loop vs variable_values_t derivatives dt
                       (dict_set result_values variable (cell_add x (cell_mul d (Num dt))))))"

definition euler_step :: "'a DynamicModel_scheme \<Rightarrow> real \<Rightarrow> cell dict \<Rightarrow> error + cell dict" where
  "euler_step self dt variable_values_t =
     (case compute_derivative self variable_values_t of
        Inl e \<Rightarrow> Inl e
      | Inr derivatives \<Rightarrow>
          result_values_loop (dict_keys derivatives) variable_values_t derivatives dt [])"

partial_function (option) euler_integrate_loop ::
  "'a DynamicModel_scheme \<Rightarrow> real \<Rightarrow> real \<Rightarrow> cell \<Rightarrow> dataframe \<Rightarrow> (error + dataframe) option"
where
  "euler_integrate_loop self t_final dt t result_df =
     (if cell_less t (Num t_final) then
        (case iloc_last result_df of
           Inl e \<Rightarrow> Some (Inl e)
         | Inr variable_values_t \<Rightarrow>
             (case euler_step self dt variable_values_t of
                Inl e \<Rightarrow> Some (Inl e)
              | Inr result_values \<Rightarrow>
                  (case dict_get result_values ''t'' of
                     Inl e \<Rightarrow> Some (Inl e)
                   | Inr t' \<Rightarrow> euler_integrate_loop self t_final dt t'
                                (pd_concat result_df (pd_DataFrame_dict result_values)))))
      else Some (Inr result_df))"

text \<open>
  \<open>euler_integrate\<close> assigns to the dict it is given, so the result is paired with that
  dict as the caller finds it after the call, whether the call returned or raised.
  The result is \<open>None\<close> when the loop does not end.
\<close>

definition euler_integrate ::
  "'a DynamicModel_scheme \<Rightarrow> cell dict \<Rightarrow> real \<Rightarrow> real \<Rightarrow> ((error + dataframe) \<times> cell dict) option"
where
  "euler_integrate self variables_initial t_final dt =
     (let variables_initial' =
            (if ''t'' \<notin> set (dict_keys variables_initial)
             then dict_set variables_initial ''t'' (Num 0) else variables_initial);
          result_df = pd_concat (pd_DataFrame_columns (dict_keys (variables self)))
                                (pd_DataFrame_dict variables_initial')
      in case last_value result_df ''t'' of
           Inl e \<Rightarrow> Some (Inl e, variables_initial')
         | Inr t \<Rightarrow> map_option (\<lambda>r. (r, variables_initial'))
                     (euler_integrate_loop self t_final dt t result_df))"

text \<open>
  Line 108, \<open>result_values_df[result_values_df < 1e-14] = 0\<close>: every cell of the new
  row that compares below \<open>1e-14\<close> is overwritten with 0.
\<close>

definition clamp_cell :: "cell \<Rightarrow> cell" where
  "clamp_cell c = (if cell_less c (Num (1 / 10 ^ 14)) then Num 0 else c)"

definition clamp_row :: "cell dict \<Rightarrow> cell dict" where
  "clamp_row r = map (\<lambda>(c, v). (c, clamp_cell v)) r"

definition clamp_frame :: "dataframe \<Rightarrow> dataframe" where
  "clamp_frame df = df\<lparr>rows := map clamp_row (rows df)\<rparr>"

partial_function (option) euler_integrate_keep_positive_loop ::
  "'a DynamicModel_scheme \<Rightarrow> real \<Rightarrow> real \<Rightarrow> cell \<Rightarrow> dataframe \<Rightarrow> (error + dataframe) option"
where
  "euler_integrate_keep_positive_loop self t_final dt t result_df =
     (if cell_less t (Num t_final) then
        (case iloc_last result_df of
           Inl e \<Rightarrow> Some (Inl e)
         | Inr variable_values_t \<Rightarrow>
             (case euler_step self dt variable_values_t of
                Inl e \<Rightarrow> Some (Inl e)
              | Inr result_values \<Rightarrow>
                  (case dict_get result_values ''t'' of
                     Inl e \<Rightarrow> Some (Inl e)
                   | Inr t' \<Rightarrow> euler_integrate_keep_positive_loop self t_final dt t'
                                (pd_concat result_df (clamp_frame (pd_DataFrame_dict result_values))))))
      else Some (Inr result_df))"

text \<open>\<open>euler_integrate_keep_positive\<close> only reads the dict it is given.\<close>

definition euler_integrate_keep_positive ::
  "'a DynamicModel_scheme \<Rightarrow> cell dict \<Rightarrow> real \<Rightarrow> real \<Rightarrow> (error + dataframe) option"
where
  "euler_integrate_keep_positive self variables_initial t_final dt =
     (let result_df = pd_concat (pd_DataFrame_columns (dict_keys (variables self)))
                                (pd_DataFrame_dict variables_initial)
      in case last_value result_df ''t'' of
           Inl e \<Rightarrow> Some (Inl e)
         | Inr t \<Rightarrow> euler_integrate_keep_positive_loop self t_final dt t result_df)"

section \<open>DynamicModel2D: the grid sampler\<close>

text \<open>
  The numpy operations of \<open>create_meshgrid_derivatives\<close>. An array of two dimensions is a
  list of rows. \<open>np.meshgrid(xs, ys)\<close> with its default indexing returns two arrays of
  \<open>len(ys)\<close> rows and \<open>len(xs)\<close> columns. \<open>np.empty_like\<close> allocates an array of the same
  shape whose contents are not initialised; \<open>NaN\<close> stands for them here, and every entry
  is written before the sampler returns.
  Reading or writing outside an array raises \<open>IndexError\<close>.
\<close>

definition np_linspace :: "real \<Rightarrow> real \<Rightarrow> int \<Rightarrow> error + cell list" where
  "np_linspace start stop num =
     (if num < 0 then Inl ValueError
      else if num = 1 then Inr [Num start]
      else Inr (map (\<lambda>i. Num (start + real i * ((stop - start) / real (nat num - 1))))
                    [0..<nat num]))"

definition np_meshgrid :: "cell list \<Rightarrow> cell list \<Rightarrow> cell list list \<times> cell list list" where
  "np_meshgrid xs ys = (replicate (length ys) xs, map (\<lambda>y. replicate (length xs) y) ys)"

definition np_empty_like :: "cell list list \<Rightarrow> cell list list" where
  "np_empty_like a = map (map (\<lambda>_. NaN)) a"

definition arr_get :: "cell list list \<Rightarrow> nat \<Rightarrow> nat \<Rightarrow> error + cell" where
  "arr_get a i j =
     (if i < length a \<and> j < length (a ! i) then Inr (a ! i ! j) else Inl IndexError)"

definition arr_set :: "cell list list \<Rightarrow> nat \<Rightarrow> nat \<Rightarrow> cell \<Rightarrow> error + cell list list" where
  "arr_set a i j v =
     (if i < length a \<and> j < length (a ! i) then Inr (a[i := (a ! i)[j := v]])
      else Inl IndexError)"

record DynamicModel2D = DynamicModel +
  variable_x :: string
  variable_y :: string

definition add_variable_axis ::
  "var_info dict \<Rightarrow> string \<Rightarrow> (cell dict \<Rightarrow> real dict \<Rightarrow> error + cell) \<Rightarrow> real dict \<Rightarrow> string
     \<Rightarrow> var_info dict"
where
  "add_variable_axis vars name f ps ax =
     dict_set vars name \<lparr>derivative_function = f, parameters = ps, axis = Some ax\<rparr>"

definition DynamicModel2D_init ::
  "string \<Rightarrow> (cell dict \<Rightarrow> real dict \<Rightarrow> error + cell) \<Rightarrow> real dict \<Rightarrow>
   string \<Rightarrow> (cell dict \<Rightarrow> real dict \<Rightarrow> error + cell) \<Rightarrow> real dict \<Rightarrow> DynamicModel2D"
where
  "DynamicModel2D_init vx fx px vy fy py =
     \<lparr>variables =
        add_variable_axis
          (add_variable_axis (variables DynamicModel_init) vx fx px ''x'') vy fy py ''y'',
      variable_x = vx, variable_y = vy\<rparr>"

text \<open>Line 79: \<open>{'t': t, X_name: Xv[i,j], Y_name: Hv[i,j]}\<close>; a later key overwrites an equal earlier one.\<close>

definition var_dict :: "DynamicModel2D \<Rightarrow> real \<Rightarrow> cell \<Rightarrow> cell \<Rightarrow> cell dict" where
  "var_dict self t x y =
     dict_set (dict_set [(''t'', Num t)] (variable_x self) x) (variable_y self) y"

fun meshgrid_row ::
  "DynamicModel2D \<Rightarrow> real \<Rightarrow> cell list list \<Rightarrow> cell list list \<Rightarrow> nat \<Rightarrow> nat list
     \<Rightarrow> cell list list \<times> cell list list \<Rightarrow> error + cell list list \<times> cell list list"
where
  "meshgrid_row self t Xv Hv i [] (Xdot, Ydot) = Inr (Xdot, Ydot)"
| "meshgrid_row self t Xv Hv i (j # js) (Xdot, Ydot) =
     (case arr_get Xv i j of Inl e \<Rightarrow> Inl e | Inr x \<Rightarrow>
      case arr_get Hv i j of Inl e \<Rightarrow> Inl e | Inr y \<Rightarrow>
      case compute_derivative self (var_dict self t x y) of
        Inl e \<Rightarrow> Inl e | Inr derivatives \<Rightarrow>
      case dict_get derivatives (variable_y self) of Inl e \<Rightarrow> Inl e | Inr dy \<Rightarrow>
      case arr_set Ydot i j dy of Inl e \<Rightarrow> Inl e | Inr Ydot' \<Rightarrow>
      case dict_get derivatives (variable_x self) of Inl e \<Rightarrow> Inl e | Inr dx \<Rightarrow>
      case arr_set Xdot i j dx of Inl e \<Rightarrow> Inl e | Inr Xdot' \<Rightarrow>
        meshgrid_row self t Xv Hv i js (Xdot', Ydot'))"

fun meshgrid_rows ::
  "DynamicModel2D \<Rightarrow> real \<Rightarrow> cell list list \<Rightarrow> cell list list \<Rightarrow> nat list \<Rightarrow> nat list
     \<Rightarrow> cell list list \<times> cell list list \<Rightarrow> error + cell list list \<times> cell list list"
where
  "meshgrid_rows self t Xv Hv [] js acc = Inr acc"
| "meshgrid_rows self t Xv Hv (i # is) js acc =
     (case meshgrid_row self t Xv Hv i js acc of
        Inl e \<Rightarrow> Inl e
      | Inr acc' \<Rightarrow> meshgrid_rows self t Xv Hv is js acc')"

definition create_meshgrid_derivatives ::
  "DynamicModel2D \<Rightarrow> int \<Rightarrow> int \<Rightarrow> real \<times> real \<Rightarrow> real \<times> real \<Rightarrow> real
     \<Rightarrow> error + cell list list \<times> cell list list \<times> cell list list \<times> cell list list"
where
  "create_meshgrid_derivatives self n_X n_Y Xlim Ylim t =
     (case np_linspace (fst Xlim) (snd Xlim) n_X of Inl e \<Rightarrow> Inl e | Inr xs \<Rightarrow>
      case np_linspace (fst Ylim) (snd Ylim) n_Y of Inl e \<Rightarrow> Inl e | Inr ys \<Rightarrow>
      let (Xv, Hv) = np_meshgrid xs ys in
      case meshgrid_rows self t Xv Hv [0..<nat n_X] [0..<nat n_Y]
             (np_empty_like Xv, np_empty_like Hv) of
        Inl e \<Rightarrow> Inl e
      | Inr (Xdot, Ydot) \<Rightarrow> Inr (Xv, Hv, Xdot, Ydot))"

section \<open>Callables with side effects\<close>

text \<open>
  A Python callable can also read and write state outside its arguments. Here that
  state, the world, is passed through every call of the evaluator's loop, in the order
  of the registry. \<open>compute_derivative\<close> above is this loop for callables that leave the
  world alone. The evaluator itself assigns to its local dict only, never to the
  registry, so the registry is an argument and not a result.
\<close>

record 'w var_info_w =
  derivative_function_w :: "cell dict \<Rightarrow> real dict \<Rightarrow> 'w \<Rightarrow> (error + cell) \<times> 'w"
  parameters_w :: "real dict"

fun compute_derivative_w_loop ::
  "'w var_info_w dict \<Rightarrow> cell dict \<Rightarrow> cell dict \<Rightarrow> 'w \<Rightarrow> (error + cell dict) \<times> 'w" where
  "compute_derivative_w_loop [] variable_values derivatives w = (Inr derivatives, w)"
| "compute_derivative_w_loop ((variable, info) # rest) variable_values derivatives w =
     (case derivative_function_w info variable_values (parameters_w info) w of
        (Inl e, w') \<Rightarrow> (Inl e, w')
      | (Inr d, w') \<Rightarrow>
          compute_derivative_w_loop rest variable_values (dict_set derivatives variable d) w')"

definition compute_derivative_w ::
  "'w var_info_w dict \<Rightarrow> cell dict \<Rightarrow> 'w \<Rightarrow> (error + cell dict) \<times> 'w" where
  "compute_derivative_w vars variable_values w = compute_derivative_w_loop vars variable_values [] w"

definition pure_callable :: "(cell dict \<Rightarrow> real dict \<Rightarrow> 'w \<Rightarrow> (error + cell) \<times> 'w) \<Rightarrow> bool" where
  "pure_callable f =
     (\<forall>variable_values ps w. snd (f variable_values ps w) = w \<and>
        (\<forall>w'. fst (f variable_values ps w') = fst (f variable_values ps w)))"

definition lift_info :: "var_info \<Rightarrow> 'w var_info_w" where
  "lift_info info =
     \<lparr>derivative_function_w = (\<lambda>variable_values ps w. (derivative_function info variable_values ps, w)),
      parameters_w = parameters info\<rparr>"

definition lift_registry :: "var_info dict \<Rightarrow> 'w var_info_w dict" where
  "lift_registry vars = map (\<lambda>(name, info). (name, lift_info info)) vars"

text \<open>A callable that is not pure: it returns the number of calls made so far and counts its own.\<close>

definition counting_callable :: "cell dict \<Rightarrow> real dict \<Rightarrow> nat \<Rightarrow> (error + cell) \<times> nat" where
  "counting_callable variable_values ps w = (Inr (Num (real w)), Suc w)"

section \<open>Conditions on models and frames\<close>

text \<open>
  \<open>default_time\<close>: the variable \<open>t\<close> is registered with the derivative function that the
  constructor gives it. \<open>evaluates\<close>: no registered derivative function raises on a
  snapshot that has a value for every registered variable. \<open>frame_inv\<close>: the frame has a
  row, and every row has exactly the frame's columns.
\<close>

definition default_time :: "'a DynamicModel_scheme \<Rightarrow> bool" where
  "default_time self =
     (''t'' \<in> set (dict_keys (variables self)) \<and>
      (\<forall>info. (''t'', info) \<in> set (variables self) \<longrightarrow>
          derivative_function info = (\<lambda>variables parameters. Inr (Num 1))))"


text \<open>
  \<open>is_double\<close>: the number is a value of the binary64 format in which the program holds
  its numbers, an integer below \<open>2 ^ 53\<close> in magnitude times a power of two in the
  format's range. The sum of two such values is computed without rounding exactly when
  the sum is such a value again.
\<close>

definition is_double :: "real \<Rightarrow> bool" where
  "is_double x =
     (\<exists>(m::int) (a::nat) (b::nat). \<bar>m\<bar> < 2 ^ 53 \<and> a \<le> 971 \<and> b \<le> 1074 \<and>
        x = real_of_int m * 2 ^ a / 2 ^ b)"

definition frame_inv :: "dataframe \<Rightarrow> bool" where
  "frame_inv df = (rows df \<noteq> [] \<and> (\<forall>r \<in> set (rows df). reindex (columns df) r = r))"

section \<open>The example model of ModelBase\<close>

text \<open>The two derivative functions and the model of the \<open>__main__\<close> block.\<close>

definition derivative_function_x :: "cell dict \<Rightarrow> real dict \<Rightarrow> error + cell" where
  "derivative_function_x = (\<lambda>variables parameters.
     (case dict_get parameters ''a'' of
        Inl e \<Rightarrow> Inl e
      | Inr a \<Rightarrow>
          (case dict_get variables ''y'' of
             Inl e \<Rightarrow> Inl e
           | Inr y \<Rightarrow> Inr (cell_mul (Num a) y))))"

definition derivative_function_y :: "cell dict \<Rightarrow> real dict \<Rightarrow> error + cell" where
  "derivative_function_y = (\<lambda>variables parameters.
     (case dict_get parameters ''b'' of
        Inl e \<Rightarrow> Inl e
      | Inr b \<Rightarrow>
          (case dict_get variables ''x'' of
             Inl e \<Rightarrow> Inl e
           | Inr x \<Rightarrow> Inr (cell_mul (Num (- b)) x))))"

definition example_model :: DynamicModel where
  "example_model =
     add_variable
       (add_variable DynamicModel_init ''x'' derivative_function_x [(''a'', 1)])
       ''y'' derivative_function_y [(''b'', 100)]"

definition example_model2D :: DynamicModel2D where
  "example_model2D =
     DynamicModel2D_init ''x'' derivative_function_x [(''a'', 1)]
                         ''y'' derivative_function_y [(''b'', 100)]"

text \<open>
  Two more models made with the registration interface. The first registers \<open>t\<close> a
  second time, with a derivative function that is constantly 2. The second has a
  variable whose derivative function reads \<open>w\<close>, a name that is not registered.
\<close>

definition derivative_function_two :: "cell dict \<Rightarrow> real dict \<Rightarrow> error + cell" where
  "derivative_function_two = (\<lambda>variables parameters. Inr (Num 2))"

definition retimed_model :: DynamicModel where
  "retimed_model = add_variable DynamicModel_init ''t'' derivative_function_two []"

definition derivative_function_reads_w :: "cell dict \<Rightarrow> real dict \<Rightarrow> error + cell" where
  "derivative_function_reads_w = (\<lambda>variables parameters. dict_get variables ''w'')"

definition raising_model :: DynamicModel where
  "raising_model = add_variable DynamicModel_init ''x'' derivative_function_reads_w []"

section \<open>Dictionaries and frames\<close>

lemma map_of_dict_set: "map_of (dict_set d k v) = (map_of d)(k \<mapsto> v)"
  by (simp add: dict_set_def update_conv')

lemma keys_dict_set: "set (dict_keys (dict_set d k v)) = insert k (set (dict_keys d))"
  by (auto simp: dict_set_def dict_keys_def update_keys)

lemma dict_get_Inr: "dict_get d k = Inr v \<longleftrightarrow> map_of d k = Some v"
  by (simp add: dict_get_def split: option.splits)

lemma dict_get_Inl: "dict_get d k = Inl e \<longleftrightarrow> map_of d k = None \<and> e = KeyError k"
  by (auto simp: dict_get_def split: option.splits)

lemma map_of_None_keys: "map_of d k = None \<longleftrightarrow> k \<notin> set (dict_keys d)"
  by (simp add: dict_keys_def map_of_eq_None_iff)

lemmas eval_defs =
  example_model_def add_variable_def DynamicModel_init_def dict_set_def dict_get_def
  dict_keys_def derivative_function_x_def derivative_function_y_def euler_integrate_def
  pd_concat_def pd_DataFrame_columns_def pd_DataFrame_dict_def reindex_def last_value_def
  iloc_last_def euler_step_def compute_derivative_def Let_def euler_integrate_keep_positive_def
  clamp_frame_def clamp_row_def clamp_cell_def

section \<open>The derivative evaluator\<close>

lemma compute_derivative_loop_keys:
  "compute_derivative_loop vars s acc = Inr d \<Longrightarrow>
     set (dict_keys d) = set (dict_keys acc) \<union> set (dict_keys vars)"
proof (induction vars arbitrary: acc)
  case Nil
  then show ?case by (simp add: dict_keys_def)
next
  case (Cons p vars)
  obtain n info where p: "p = (n, info)" by (cases p)
  from Cons.prems p obtain v where
    "compute_derivative_loop vars s (dict_set acc n v) = Inr d"
    by (auto split: sum.splits)
  from Cons.IH [OF this]
  have "set (dict_keys d) = insert n (set (dict_keys acc)) \<union> set (dict_keys vars)"
    by (simp add: keys_dict_set)
  then show ?case
    by (auto simp: p dict_keys_def)
qed

lemma compute_derivative_loop_time:
  assumes "compute_derivative_loop vars s acc = Inr d"
    and "\<forall>info. (''t'', info) \<in> set vars \<longrightarrow>
           derivative_function info = (\<lambda>variables parameters. Inr (Num 1))"
    and "''t'' \<in> set (dict_keys vars) \<or> map_of acc ''t'' = Some (Num 1)"
  shows "map_of d ''t'' = Some (Num 1)"
  using assms
proof (induction vars arbitrary: acc)
  case Nil
  then show ?case by (simp add: dict_keys_def)
next
  case (Cons p vars)
  obtain n info where p: "p = (n, info)" by (cases p)
  from Cons.prems(1) p obtain v where
    v: "derivative_function info s (parameters info) = Inr v"
    and rest: "compute_derivative_loop vars s (dict_set acc n v) = Inr d"
    by (auto split: sum.splits)
  have tl: "\<forall>info. (''t'', info) \<in> set vars \<longrightarrow>
           derivative_function info = (\<lambda>variables parameters. Inr (Num 1))"
    using Cons.prems(2) by auto
  have "''t'' \<in> set (dict_keys vars) \<or> map_of (dict_set acc n v) ''t'' = Some (Num 1)"
  proof (cases "n = ''t''")
    case True
    with Cons.prems(2) p
    have "derivative_function info = (\<lambda>variables parameters. Inr (Num 1))"
      by auto
    with v have "v = Num 1" by simp
    with True show ?thesis by (simp add: map_of_dict_set)
  next
    case False
    with Cons.prems(3) p show ?thesis by (auto simp: map_of_dict_set dict_keys_def)
  qed
  from Cons.IH [OF rest tl this] show ?case .
qed

lemma default_time_example: "default_time example_model"
  by (auto simp: default_time_def example_model_def add_variable_def DynamicModel_init_def
      dict_set_def dict_keys_def)

text \<open>
  C7, as the code has it. In a model whose variable \<open>t\<close> has the derivative function
  that the constructor registers, every evaluation that returns gives the time variable
  the derivative 1, whatever the snapshot holds.
\<close>

theorem time_derivative_is_one:
  assumes "default_time self"
    and "compute_derivative self snapshot = Inr derivatives"
  shows "dict_get derivatives ''t'' = Inr (Num 1)"
proof -
  have "map_of derivatives ''t'' = Some (Num 1)"
    using assms compute_derivative_loop_time [of "variables self" snapshot "[]" derivatives]
    by (simp add: default_time_def compute_derivative_def)
  then show ?thesis by (simp add: dict_get_def)
qed

theorem time_derivative_is_one_witness:
  "default_time example_model \<and>
   compute_derivative example_model [(''t'', Num 0), (''x'', Num 1), (''y'', Num 2)] =
     Inr [(''t'', Num 1), (''x'', Num 2), (''y'', Num (- 100))] \<and>
   dict_get [(''t'', Num 1), (''x'', Num 2), (''y'', Num (- 100))] ''t'' = Inr (Num 1)"
proof -
  have ev: "compute_derivative example_model [(''t'', Num 0), (''x'', Num 1), (''y'', Num 2)] =
     Inr [(''t'', Num 1), (''x'', Num 2), (''y'', Num (- 100))]"
    by (simp add: eval_defs)
  from time_derivative_is_one [OF default_time_example ev] default_time_example ev
  show ?thesis by simp
qed

text \<open>
  Without that condition the statement fails. \<open>add_variable\<close> registers \<open>t\<close> again like
  any other name, and the evaluator then returns the value of the new function, here 2.
  And when a registered derivative function raises, the evaluator returns no
  derivatives at all.
\<close>

theorem retimed_time_derivative_is_two:
  "compute_derivative retimed_model [(''t'', Num 0)] = Inr [(''t'', Num 2)] \<and>
   dict_get [(''t'', Num 2)] ''t'' \<noteq> Inr (Num 1) \<and>
   compute_derivative raising_model [(''t'', Num 0), (''x'', Num 1)] = Inl (KeyError ''w'')"
  by (simp add: retimed_model_def raising_model_def derivative_function_two_def
      derivative_function_reads_w_def add_variable_def DynamicModel_init_def dict_set_def
      dict_get_def compute_derivative_def)

section \<open>Models built through the registration interface\<close>

lemma set_dict_set: "set (dict_set d k v) \<subseteq> insert (k, v) (set d)"
  unfolding dict_set_def by (induction d) auto

lemma time_registered_init: "''t'' \<in> set (dict_keys (variables DynamicModel_init))"
  by (simp add: DynamicModel_init_def dict_keys_def)

lemma time_registered_add_variable:
  "''t'' \<in> set (dict_keys (variables self)) \<Longrightarrow>
     ''t'' \<in> set (dict_keys (variables (add_variable self name f ps)))"
  by (simp add: add_variable_def keys_dict_set)

lemma default_time_init: "default_time DynamicModel_init"
  by (simp add: default_time_def DynamicModel_init_def dict_keys_def)

lemma default_time_add_variable:
  assumes "default_time self" and "name \<noteq> ''t''"
  shows "default_time (add_variable self name f ps)"
proof -
  have "derivative_function info = (\<lambda>variables parameters. Inr (Num 1))"
    if "(''t'', info) \<in> set (variables (add_variable self name f ps))" for info
  proof -
    from that set_dict_set [of "variables self" name] assms(2)
    have "(''t'', info) \<in> set (variables self)"
      by (auto simp: add_variable_def)
    with assms(1) show ?thesis by (simp add: default_time_def)
  qed
  with assms(1) show ?thesis
    by (simp add: default_time_def add_variable_def keys_dict_set)
qed

lemma default_time_2D:
  assumes "vx \<noteq> ''t''" and "vy \<noteq> ''t''"
  shows "default_time (DynamicModel2D_init vx fx px vy fy py)"
proof -
  have "derivative_function info = (\<lambda>variables parameters. Inr (Num 1))"
    if "(''t'', info) \<in> set (variables (DynamicModel2D_init vx fx px vy fy py))" for info
  proof -
    let ?v1 = "add_variable_axis (variables DynamicModel_init) vx fx px ''x''"
    from that have "(''t'', info) \<in> set (add_variable_axis ?v1 vy fy py ''y'')"
      by (simp add: DynamicModel2D_init_def)
    with set_dict_set [of ?v1 vy] assms(2) have "(''t'', info) \<in> set ?v1"
      by (auto simp: add_variable_axis_def)
    with set_dict_set [of "variables DynamicModel_init" vx] assms(1)
    have "(''t'', info) \<in> set (variables DynamicModel_init)"
      by (auto simp: add_variable_axis_def)
    then show ?thesis by (simp add: DynamicModel_init_def)
  qed
  then show ?thesis
    by (simp add: default_time_def DynamicModel2D_init_def add_variable_axis_def keys_dict_set
        DynamicModel_init_def) (simp add: dict_keys_def)
qed

section \<open>The example run\<close>

text \<open>
  C6. With \<open>x\<close> registered with derivative \<open>a * y\<close>, \<open>a = 1\<close>, and \<open>y\<close> with derivative
  \<open>- b * x\<close>, \<open>b = 100\<close>, the run of \<open>euler_integrate\<close> from \<open>{t: 0, x: 1, y: 2}\<close> with step
  0.1 up to time 0.1 takes one step and appends the row \<open>t = 0.1\<close>, \<open>x = 1.2\<close>, \<open>y = - 8\<close>.
\<close>

theorem example_one_step:
  "euler_integrate example_model [(''t'', Num 0), (''x'', Num 1), (''y'', Num 2)] (1 / 10) (1 / 10) =
     Some (Inr \<lparr>columns = [''t'', ''x'', ''y''],
                 rows = [[(''t'', Num 0), (''x'', Num 1), (''y'', Num 2)],
                         [(''t'', Num (1 / 10)), (''x'', Num (12 / 10)), (''y'', Num (- 8))]]\<rparr>,
           [(''t'', Num 0), (''x'', Num 1), (''y'', Num 2)])"
  by (simp add: eval_defs euler_integrate_loop.simps)

section \<open>Evaluation and side effects\<close>

lemma compute_derivative_w_loop_pure:
  assumes "\<forall>(name, info) \<in> set vars. pure_callable (derivative_function_w info)"
  shows "snd (compute_derivative_w_loop vars s acc w) = w \<and>
         fst (compute_derivative_w_loop vars s acc w') = fst (compute_derivative_w_loop vars s acc w)"
  using assms
proof (induction vars arbitrary: acc w w')
  case Nil
  then show ?case by simp
next
  case (Cons p vars)
  obtain n info where p: "p = (n, info)" by (cases p)
  from Cons.prems p have pure: "pure_callable (derivative_function_w info)"
    and rest: "\<forall>(name, info) \<in> set vars. pure_callable (derivative_function_w info)"
    by auto
  obtain r where r: "derivative_function_w info s (parameters_w info) w = (r, w)"
    using pure unfolding pure_callable_def by (metis prod.collapse)
  have r': "derivative_function_w info s (parameters_w info) w' = (r, w')"
    using pure r unfolding pure_callable_def by (metis fst_conv prod.collapse)
  show ?case
  proof (cases r)
    case (Inl e)
    with r r' p show ?thesis by simp
  next
    case (Inr d)
    with r r' p Cons.IH [OF rest, of "dict_set acc n d" w w'] show ?thesis by simp
  qed
qed

lemma compute_derivative_w_loop_lift:
  "compute_derivative_w_loop (lift_registry vars) s acc w = (compute_derivative_loop vars s acc, w)"
proof (induction vars arbitrary: acc)
  case Nil
  then show ?case by (simp add: lift_registry_def)
next
  case (Cons p vars)
  obtain n info where p: "p = (n, info)" by (cases p)
  have step: "lift_registry (p # vars) = (n, lift_info info) # lift_registry vars"
    by (simp add: lift_registry_def p)
  show ?case
    unfolding step using Cons.IH
    by (cases "derivative_function info s (parameters info)") (simp_all add: p lift_info_def)
qed

lemma compute_derivative_w_lift:
  "compute_derivative_w (lift_registry (variables self)) s w = (compute_derivative self s, w)"
  by (simp add: compute_derivative_w_def compute_derivative_def compute_derivative_w_loop_lift)

lemma pure_callable_lift: "\<forall>(name, info) \<in> set (lift_registry vars). pure_callable (derivative_function_w info)"
  by (auto simp: lift_registry_def pure_callable_def lift_info_def)

lemma counting_callable_not_repeatable:
  "fst (compute_derivative_w [(''n'', \<lparr>derivative_function_w = counting_callable, parameters_w = []\<rparr>)] [] 0)
     = Inr [(''n'', Num 0)] \<and>
   fst (compute_derivative_w [(''n'', \<lparr>derivative_function_w = counting_callable, parameters_w = []\<rparr>)] [] 1)
     = Inr [(''n'', Num 1)] \<and>
   snd (compute_derivative_w [(''n'', \<lparr>derivative_function_w = counting_callable, parameters_w = []\<rparr>)] [] 0)
     = 1"
  by (simp add: compute_derivative_w_def counting_callable_def dict_set_def)

text \<open>
  C9. When every registered derivative function is pure, an evaluation leaves the world
  as it found it, and a second evaluation with the same snapshot, started in the world
  the first one left, returns the same result and again leaves the world unchanged.
\<close>

theorem pure_evaluation_repeatable:
  assumes "\<forall>(name, info) \<in> set vars. pure_callable (derivative_function_w info)"
    and "compute_derivative_w vars snapshot w = (r1, w1)"
    and "compute_derivative_w vars snapshot w1 = (r2, w2)"
  shows "r2 = r1 \<and> w1 = w \<and> w2 = w"
proof -
  from compute_derivative_w_loop_pure [OF assms(1), of snapshot "[]" w w] assms(2)
  have w1: "w1 = w" by (simp add: compute_derivative_w_def)
  from compute_derivative_w_loop_pure [OF assms(1), of snapshot "[]" w1 w1] assms(3)
  have w2: "w2 = w1" by (simp add: compute_derivative_w_def)
  from assms(2,3) w1 have "r2 = r1" by simp
  with w1 w2 show ?thesis by simp
qed

theorem pure_evaluation_repeatable_witness:
  "compute_derivative_w (lift_registry (variables example_model))
     [(''t'', Num 0), (''x'', Num 1), (''y'', Num 2)] (7::nat) =
     (Inr [(''t'', Num 1), (''x'', Num 2), (''y'', Num (- 100))], 7) \<and>
   Inr [(''t'', Num 1), (''x'', Num 2), (''y'', Num (- 100))] =
     fst (compute_derivative_w (lift_registry (variables example_model))
            [(''t'', Num 0), (''x'', Num 1), (''y'', Num 2)] (7::nat))"
proof -
  have p: "\<forall>(name, info) \<in> set (lift_registry (variables example_model) :: nat var_info_w dict).
      pure_callable (derivative_function_w info)"
    by (rule pure_callable_lift)
  have e: "compute_derivative_w (lift_registry (variables example_model))
     [(''t'', Num 0), (''x'', Num 1), (''y'', Num 2)] (7::nat) =
     (Inr [(''t'', Num 1), (''x'', Num 2), (''y'', Num (- 100))], 7)"
    by (simp only: compute_derivative_w_lift) (simp add: eval_defs)
  from pure_evaluation_repeatable [OF p e e] e show ?thesis by simp
qed

section \<open>The caller's dict\<close>

lemma update_append: "k \<notin> fst ` set al \<Longrightarrow> AList.update k v al = al @ [(k, v)]"
  by (induction al) auto

lemma dict_set_new: "k \<notin> set (dict_keys d) \<Longrightarrow> dict_set d k v = d @ [(k, v)]"
  by (simp add: dict_set_def dict_keys_def update_append)

text \<open>
  C10. When the dict given to \<open>euler_integrate\<close> has no key \<open>t\<close>, the caller finds it,
  after the call, with \<open>t\<close> mapped to 0 appended; every other key has the value it had,
  and no key is removed.
\<close>

theorem euler_integrate_inserts_time:
  assumes "''t'' \<notin> set (dict_keys variables_initial)"
    and "euler_integrate self variables_initial t_final dt = Some (outcome, variables_initial')"
  shows "variables_initial' = variables_initial @ [(''t'', Num 0)] \<and>
         dict_get variables_initial' ''t'' = Inr (Num 0) \<and>
         (\<forall>k. k \<noteq> ''t'' \<longrightarrow> map_of variables_initial' k = map_of variables_initial k)"
proof -
  from assms have "variables_initial' = dict_set variables_initial ''t'' (Num 0)"
    by (auto simp: euler_integrate_def Let_def split: sum.splits)
  with assms(1) show ?thesis
    by (simp add: dict_set_new dict_get_def map_of_None_keys [symmetric] map_add_def
        split: option.splits)
qed

theorem euler_integrate_inserts_time_witness:
  "''t'' \<notin> set (dict_keys [(''x'', Num 1), (''y'', Num 2)]) \<and>
   euler_integrate example_model [(''x'', Num 1), (''y'', Num 2)] (1 / 10) (1 / 10) =
     Some (Inr \<lparr>columns = [''t'', ''x'', ''y''],
                 rows = [[(''t'', Num 0), (''x'', Num 1), (''y'', Num 2)],
                         [(''t'', Num (1 / 10)), (''x'', Num (12 / 10)), (''y'', Num (- 8))]]\<rparr>,
           [(''x'', Num 1), (''y'', Num 2)] @ [(''t'', Num 0)])"
proof -
  have k: "''t'' \<notin> set (dict_keys [(''x'', Num 1), (''y'', Num 2)])"
    by (simp add: dict_keys_def)
  have e: "euler_integrate example_model [(''x'', Num 1), (''y'', Num 2)] (1 / 10) (1 / 10) =
     Some (Inr \<lparr>columns = [''t'', ''x'', ''y''],
                 rows = [[(''t'', Num 0), (''x'', Num 1), (''y'', Num 2)],
                         [(''t'', Num (1 / 10)), (''x'', Num (12 / 10)), (''y'', Num (- 8))]]\<rparr>,
           [(''x'', Num 1), (''y'', Num 2), (''t'', Num 0)])"
    by (simp add: eval_defs euler_integrate_loop.simps)
  from euler_integrate_inserts_time [OF k e] k e show ?thesis by simp
qed

lemma time_is_one_lookup:
  assumes "default_time self" and "compute_derivative self snapshot = Inr derivatives"
  shows "map_of derivatives ''t'' = Some (Num 1)"
  using assms compute_derivative_loop_time [of "variables self" snapshot "[]" derivatives]
  by (simp add: default_time_def compute_derivative_def)

section \<open>Rows and frames\<close>

lemma keys_reindex: "dict_keys (reindex cols r) = cols"
  by (simp add: reindex_def dict_keys_def comp_def)

lemma map_of_reindex:
  "map_of (reindex cols r) c =
     (if c \<in> set cols then Some (case map_of r c of None \<Rightarrow> NaN | Some v \<Rightarrow> v) else None)"
  by (simp add: reindex_def map_of_map_restrict restrict_map_def)

lemma reindex_eqI:
  assumes "\<And>c. c \<in> set cols \<Longrightarrow>
    (case map_of r c of None \<Rightarrow> NaN | Some v \<Rightarrow> v) = (case map_of r' c of None \<Rightarrow> NaN | Some v \<Rightarrow> v)"
  shows "reindex cols r = reindex cols r'"
  using assms by (simp add: reindex_def)

lemma reindex_idem: "reindex cols (reindex cols r) = reindex cols r"
  by (rule reindex_eqI) (simp add: map_of_reindex)

lemma dict_get_reindex:
  "c \<in> set cols \<Longrightarrow> dict_get r c = Inr v \<Longrightarrow> dict_get (reindex cols r) c = Inr v"
  by (simp add: dict_get_Inr map_of_reindex)

lemma frame_inv_keys: "frame_inv df \<Longrightarrow> r \<in> set (rows df) \<Longrightarrow> dict_keys r = columns df"
  by (metis frame_inv_def keys_reindex)

lemma concat_row:
  assumes "frame_inv df" and "set ks \<subseteq> set (columns df)"
  shows "pd_concat df \<lparr>columns = ks, rows = [r]\<rparr> =
           \<lparr>columns = columns df, rows = rows df @ [reindex (columns df) r]\<rparr>"
proof -
  have f: "filter (\<lambda>c. c \<notin> set (columns df)) ks = []"
    using assms(2) by (auto simp: filter_empty_conv)
  have m: "map (reindex (columns df)) (rows df) = rows df"
    using assms(1) by (simp add: frame_inv_def map_idI)
  show ?thesis by (simp add: pd_concat_def Let_def f m)
qed

lemma frame_inv_append:
  "frame_inv df \<Longrightarrow> frame_inv \<lparr>columns = columns df, rows = rows df @ [reindex (columns df) r]\<rparr>"
  by (simp add: frame_inv_def reindex_idem)

lemma initial_frame:
  "pd_concat (pd_DataFrame_columns ks) (pd_DataFrame_dict init) =
     \<lparr>columns = ks @ filter (\<lambda>c. c \<notin> set ks) (dict_keys init),
      rows = [reindex (ks @ filter (\<lambda>c. c \<notin> set ks) (dict_keys init)) init]\<rparr>"
  by (simp add: pd_concat_def pd_DataFrame_columns_def pd_DataFrame_dict_def Let_def)

lemma frame_inv_initial: "frame_inv (pd_concat (pd_DataFrame_columns ks) (pd_DataFrame_dict init))"
  by (simp add: initial_frame frame_inv_def reindex_idem)

lemma keys_clamp_row: "dict_keys (clamp_row r) = dict_keys r"
  by (simp add: clamp_row_def dict_keys_def comp_def case_prod_unfold)

lemma map_of_clamp_row: "map_of (clamp_row r) c = map_option clamp_cell (map_of r c)"
  by (induction r) (auto simp: clamp_row_def)

section \<open>One Euler step\<close>

lemma result_values_loop_keys:
  "result_values_loop vs vals ders dt acc = Inr rv \<Longrightarrow>
     set (dict_keys rv) = set (dict_keys acc) \<union> set vs"
proof (induction vs arbitrary: acc)
  case Nil
  then show ?case by simp
next
  case (Cons u vs)
  from Cons.prems obtain c where
    "result_values_loop vs vals ders dt (dict_set acc u c) = Inr rv"
    by (auto split: sum.splits)
  from Cons.IH [OF this] show ?case by (simp add: keys_dict_set)
qed

lemma result_values_loop_other:
  "result_values_loop vs vals ders dt acc = Inr rv \<Longrightarrow> v \<notin> set vs \<Longrightarrow>
     map_of rv v = map_of acc v"
proof (induction vs arbitrary: acc)
  case Nil
  then show ?case by simp
next
  case (Cons u vs)
  from Cons.prems(1) obtain c where
    "result_values_loop vs vals ders dt (dict_set acc u c) = Inr rv"
    by (auto split: sum.splits)
  from Cons.IH [OF this] Cons.prems(2) show ?case by (simp add: map_of_dict_set)
qed

lemma result_values_loop_value:
  "result_values_loop vs vals ders dt acc = Inr rv \<Longrightarrow> v \<in> set vs \<Longrightarrow>
     \<exists>x d. map_of vals v = Some x \<and> map_of ders v = Some d \<and>
           map_of rv v = Some (cell_add x (cell_mul d (Num dt)))"
proof (induction vs arbitrary: acc)
  case Nil
  then show ?case by simp
next
  case (Cons u vs)
  from Cons.prems(1) obtain x d where
    x: "map_of vals u = Some x" and d: "map_of ders u = Some d"
    and rest: "result_values_loop vs vals ders dt
                 (dict_set acc u (cell_add x (cell_mul d (Num dt)))) = Inr rv"
    by (auto simp: dict_get_Inr [symmetric] split: sum.splits)
  show ?case
  proof (cases "v \<in> set vs")
    case True
    from Cons.IH [OF rest True] show ?thesis .
  next
    case False
    with Cons.prems(2) have "v = u" by simp
    with result_values_loop_other [OF rest False] x d show ?thesis
      by (simp add: map_of_dict_set)
  qed
qed



lemma compute_derivative_keys:
  "compute_derivative self s = Inr d \<Longrightarrow> set (dict_keys d) = set (dict_keys (variables self))"
  using compute_derivative_loop_keys [of "variables self" s "[]" d]
  by (simp add: compute_derivative_def dict_keys_def)

lemma euler_step_keys:
  "euler_step self dt r = Inr rv \<Longrightarrow> set (dict_keys rv) = set (dict_keys (variables self))"
proof -
  assume a: "euler_step self dt r = Inr rv"
  then obtain ders where d: "compute_derivative self r = Inr ders"
    and l: "result_values_loop (dict_keys ders) r ders dt [] = Inr rv"
    by (auto simp: euler_step_def split: sum.splits)
  from result_values_loop_keys [OF l] compute_derivative_keys [OF d]
  show ?thesis by (simp add: dict_keys_def)
qed

lemma euler_step_value:
  assumes "euler_step self dt r = Inr rv" and "v \<in> set (dict_keys (variables self))"
  shows "\<exists>x d ders. compute_derivative self r = Inr ders \<and> map_of r v = Some x \<and>
           map_of ders v = Some d \<and> map_of rv v = Some (cell_add x (cell_mul d (Num dt)))"
proof -
  from assms(1) obtain ders where d: "compute_derivative self r = Inr ders"
    and l: "result_values_loop (dict_keys ders) r ders dt [] = Inr rv"
    by (auto simp: euler_step_def split: sum.splits)
  from assms(2) compute_derivative_keys [OF d] have "v \<in> set (dict_keys ders)" by simp
  from result_values_loop_value [OF l this] d show ?thesis by auto
qed

lemma euler_step_time:
  assumes "default_time self" and "euler_step self dt r = Inr rv"
    and "dict_get r ''t'' = Inr (Num a)"
  shows "dict_get rv ''t'' = Inr (Num (a + dt))"
proof -
  from assms(1) have "''t'' \<in> set (dict_keys (variables self))"
    by (simp add: default_time_def)
  from euler_step_value [OF assms(2) this] obtain x d ders where
    ders: "compute_derivative self r = Inr ders" and x: "map_of r ''t'' = Some x"
    and d: "map_of ders ''t'' = Some d"
    and rv: "map_of rv ''t'' = Some (cell_add x (cell_mul d (Num dt)))"
    by blast
  from time_is_one_lookup [OF assms(1) ders] d have "d = Num 1" by simp
  moreover from assms(3) x have "x = Num a" by (simp add: dict_get_Inr)
  ultimately show ?thesis using rv by (simp add: dict_get_Inr)
qed


section \<open>The loop of euler_integrate\<close>

lemma euler_integrate_loop_rows_aux:
  "euler_integrate_loop self t_final dt t df = Some y \<Longrightarrow>
     (\<forall>df'. y = Inr df' \<longrightarrow> default_time self \<longrightarrow> frame_inv df \<longrightarrow>
        set (dict_keys (variables self)) \<subseteq> set (columns df) \<longrightarrow>
        dict_get (last (rows df)) ''t'' = Inr t \<longrightarrow>
        successively (\<lambda>r r'. \<exists>a rv. dict_get r ''t'' = Inr (Num a) \<and> a < t_final \<and>
            euler_step self dt r = Inr rv \<and> r' = reindex (columns df) rv \<and>
            dict_get r' ''t'' = Inr (Num (a + dt))) (rows df) \<longrightarrow>
        frame_inv df' \<and> columns df' = columns df \<and>
        (\<exists>t'. dict_get (last (rows df')) ''t'' = Inr t' \<and> \<not> cell_less t' (Num t_final)) \<and>
        successively (\<lambda>r r'. \<exists>a rv. dict_get r ''t'' = Inr (Num a) \<and> a < t_final \<and>
            euler_step self dt r = Inr rv \<and> r' = reindex (columns df) rv \<and>
            dict_get r' ''t'' = Inr (Num (a + dt))) (rows df'))"
proof (induction self t_final dt t df y
    rule: euler_integrate_loop.raw_induct [rotated 1, consumes 1, case_names step])
  case (step loop self t_final dt t df y)
  note IH = step(1) and body = step(2)
  show ?case
  proof (intro allI impI)
    fix df'
    assume y: "y = Inr df'" and dti: "default_time self" and inv: "frame_inv df"
      and keys: "set (dict_keys (variables self)) \<subseteq> set (columns df)"
      and lst: "dict_get (last (rows df)) ''t'' = Inr t"
      and succ: "successively (\<lambda>r r'. \<exists>a rv. dict_get r ''t'' = Inr (Num a) \<and> a < t_final \<and>
            euler_step self dt r = Inr rv \<and> r' = reindex (columns df) rv \<and>
            dict_get r' ''t'' = Inr (Num (a + dt))) (rows df)"
    show "frame_inv df' \<and> columns df' = columns df \<and>
        (\<exists>t'. dict_get (last (rows df')) ''t'' = Inr t' \<and> \<not> cell_less t' (Num t_final)) \<and>
        successively (\<lambda>r r'. \<exists>a rv. dict_get r ''t'' = Inr (Num a) \<and> a < t_final \<and>
            euler_step self dt r = Inr rv \<and> r' = reindex (columns df) rv \<and>
            dict_get r' ''t'' = Inr (Num (a + dt))) (rows df')"
    proof (cases "cell_less t (Num t_final)")
      case False
      with body y have "df' = df" by simp
      with inv lst succ False show ?thesis by blast
    next
      case True
      then obtain a where a: "t = Num a" "a < t_final" by (cases t) auto
      from inv have ne: "rows df \<noteq> []" by (simp add: frame_inv_def)
      from body True y ne obtain rv t' where
        st: "euler_step self dt (last (rows df)) = Inr rv"
        and tt: "dict_get rv ''t'' = Inr t'"
        and rec: "loop self t_final dt t' (pd_concat df (pd_DataFrame_dict rv)) = Some (Inr df')"
        by (auto simp: iloc_last_def split: sum.splits)
      let ?df2 = "\<lparr>columns = columns df, rows = rows df @ [reindex (columns df) rv]\<rparr>"
      from euler_step_keys [OF st] keys have kk: "set (dict_keys rv) \<subseteq> set (columns df)" by simp
      have cc: "pd_concat df (pd_DataFrame_dict rv) = ?df2"
        unfolding pd_DataFrame_dict_def by (rule concat_row [OF inv kk])
      from dti keys have tcol: "''t'' \<in> set (columns df)" by (auto simp: default_time_def)
      from euler_step_time [OF dti st] lst a have t': "t' = Num (a + dt)" using tt by simp
      have l2: "dict_get (last (rows ?df2)) ''t'' = Inr t'"
        using dict_get_reindex [OF tcol tt] by simp
      have s2: "successively (\<lambda>r r'. \<exists>a rv. dict_get r ''t'' = Inr (Num a) \<and> a < t_final \<and>
            euler_step self dt r = Inr rv \<and> r' = reindex (columns ?df2) rv \<and>
            dict_get r' ''t'' = Inr (Num (a + dt))) (rows ?df2)"
        using succ ne lst a st l2 t' by (auto simp: successively_append_iff)
      have rec': "loop self t_final dt t' ?df2 = Some (Inr df')"
        using rec cc by simp
      have k2: "set (dict_keys (variables self)) \<subseteq> set (columns ?df2)"
        using keys by simp
      have i2: "frame_inv ?df2"
        by (rule frame_inv_append [OF inv])
      from IH [OF rec', THEN spec, THEN mp, OF refl, THEN mp, OF dti, THEN mp, OF i2,
          THEN mp, OF k2, THEN mp, OF l2, THEN mp, OF s2]
      show ?thesis by simp
    qed
  qed
qed

lemma euler_integrate_loop_rows:
  assumes "euler_integrate_loop self t_final dt t df = Some (Inr df')"
    and "default_time self"
    and "frame_inv df"
    and "set (dict_keys (variables self)) \<subseteq> set (columns df)"
    and "dict_get (last (rows df)) ''t'' = Inr t"
    and "length (rows df) = 1"
  shows "frame_inv df' \<and> columns df' = columns df \<and>
         (\<exists>t'. dict_get (last (rows df')) ''t'' = Inr t' \<and> \<not> cell_less t' (Num t_final)) \<and>
         successively (\<lambda>r r'. \<exists>a rv. dict_get r ''t'' = Inr (Num a) \<and> a < t_final \<and>
            euler_step self dt r = Inr rv \<and> r' = reindex (columns df) rv \<and>
            dict_get r' ''t'' = Inr (Num (a + dt))) (rows df')"
proof -
  from assms(6) obtain r where "rows df = [r]"
    by (cases "rows df") auto
  then have "successively (\<lambda>r r'. \<exists>a rv. dict_get r ''t'' = Inr (Num a) \<and> a < t_final \<and>
            euler_step self dt r = Inr rv \<and> r' = reindex (columns df) rv \<and>
            dict_get r' ''t'' = Inr (Num (a + dt))) (rows df)"
    by simp
  from euler_integrate_loop_rows_aux [OF assms(1), THEN spec, THEN mp, OF refl, THEN mp,
      OF assms(2), THEN mp, OF assms(3), THEN mp, OF assms(4), THEN mp, OF assms(5),
      THEN mp, OF this]
  show ?thesis .
qed

lemma euler_integrate_loop_frame_aux:
  "euler_integrate_loop self t_final dt t df = Some y \<Longrightarrow>
     (\<forall>df'. y = Inr df' \<longrightarrow> frame_inv df \<longrightarrow>
        set (dict_keys (variables self)) \<subseteq> set (columns df) \<longrightarrow>
        frame_inv df' \<and> columns df' = columns df)"
proof (induction self t_final dt t df y
    rule: euler_integrate_loop.raw_induct [rotated 1, consumes 1, case_names step])
  case (step loop self t_final dt t df y)
  note IH = step(1) and body = step(2)
  show ?case
  proof (intro allI impI)
    fix df'
    assume y: "y = Inr df'" and inv: "frame_inv df"
      and keys: "set (dict_keys (variables self)) \<subseteq> set (columns df)"
    show "frame_inv df' \<and> columns df' = columns df"
    proof (cases "cell_less t (Num t_final)")
      case False
      with body y have "df' = df" by simp
      with inv show ?thesis by simp
    next
      case True
      from inv have ne: "rows df \<noteq> []" by (simp add: frame_inv_def)
      from body True y ne obtain rv t' where
        st: "euler_step self dt (last (rows df)) = Inr rv"
        and rec: "loop self t_final dt t' (pd_concat df (pd_DataFrame_dict rv)) = Some (Inr df')"
        by (auto simp: iloc_last_def split: sum.splits)
      let ?df2 = "\<lparr>columns = columns df, rows = rows df @ [reindex (columns df) rv]\<rparr>"
      from euler_step_keys [OF st] keys have kk: "set (dict_keys rv) \<subseteq> set (columns df)" by simp
      have cc: "pd_concat df (pd_DataFrame_dict rv) = ?df2"
        unfolding pd_DataFrame_dict_def by (rule concat_row [OF inv kk])
      have rec': "loop self t_final dt t' ?df2 = Some (Inr df')"
        using rec cc by simp
      have k2: "set (dict_keys (variables self)) \<subseteq> set (columns ?df2)"
        using keys by simp
      have i2: "frame_inv ?df2"
        by (rule frame_inv_append [OF inv])
      from IH [OF rec', THEN spec, THEN mp, OF refl, THEN mp, OF i2, THEN mp, OF k2]
      show ?thesis by simp
    qed
  qed
qed

lemma euler_integrate_loop_frame:
  assumes "euler_integrate_loop self t_final dt t df = Some (Inr df')"
    and "frame_inv df" and "set (dict_keys (variables self)) \<subseteq> set (columns df)"
  shows "frame_inv df' \<and> columns df' = columns df"
  using euler_integrate_loop_frame_aux [OF assms(1)] assms(2,3) by simp

section \<open>The loop of euler_integrate_keep_positive\<close>

lemma euler_integrate_keep_positive_loop_rows_aux:
  "euler_integrate_keep_positive_loop self t_final dt t df = Some y \<Longrightarrow>
     (\<forall>df'. y = Inr df' \<longrightarrow> frame_inv df \<longrightarrow>
        set (dict_keys (variables self)) \<subseteq> set (columns df) \<longrightarrow>
        successively (\<lambda>r r'. \<exists>rv. euler_step self dt r = Inr rv \<and>
            r' = reindex (columns df) (clamp_row rv)) (rows df) \<longrightarrow>
        frame_inv df' \<and> columns df' = columns df \<and>
        successively (\<lambda>r r'. \<exists>rv. euler_step self dt r = Inr rv \<and>
            r' = reindex (columns df) (clamp_row rv)) (rows df'))"
proof (induction self t_final dt t df y
    rule: euler_integrate_keep_positive_loop.raw_induct [rotated 1, consumes 1, case_names step])
  case (step loop self t_final dt t df y)
  note IH = step(1) and body = step(2)
  show ?case
  proof (intro allI impI)
    fix df'
    assume y: "y = Inr df'" and inv: "frame_inv df"
      and keys: "set (dict_keys (variables self)) \<subseteq> set (columns df)"
      and succ: "successively (\<lambda>r r'. \<exists>rv. euler_step self dt r = Inr rv \<and>
            r' = reindex (columns df) (clamp_row rv)) (rows df)"
    show "frame_inv df' \<and> columns df' = columns df \<and>
        successively (\<lambda>r r'. \<exists>rv. euler_step self dt r = Inr rv \<and>
            r' = reindex (columns df) (clamp_row rv)) (rows df')"
    proof (cases "cell_less t (Num t_final)")
      case False
      with body y have "df' = df" by simp
      with inv succ show ?thesis by simp
    next
      case True
      from inv have ne: "rows df \<noteq> []" by (simp add: frame_inv_def)
      from body True y ne obtain rv t' where
        st: "euler_step self dt (last (rows df)) = Inr rv"
        and rec: "loop self t_final dt t'
                    (pd_concat df (clamp_frame (pd_DataFrame_dict rv))) = Some (Inr df')"
        by (auto simp: iloc_last_def split: sum.splits)
      let ?df2 = "\<lparr>columns = columns df,
                   rows = rows df @ [reindex (columns df) (clamp_row rv)]\<rparr>"
      from euler_step_keys [OF st] keys have kk: "set (dict_keys rv) \<subseteq> set (columns df)" by simp
      have cf: "clamp_frame (pd_DataFrame_dict rv) = \<lparr>columns = dict_keys rv, rows = [clamp_row rv]\<rparr>"
        by (simp add: clamp_frame_def pd_DataFrame_dict_def)
      have cc: "pd_concat df (clamp_frame (pd_DataFrame_dict rv)) = ?df2"
        unfolding cf by (rule concat_row [OF inv kk])
      have rec': "loop self t_final dt t' ?df2 = Some (Inr df')"
        using rec cc by simp
      have k2: "set (dict_keys (variables self)) \<subseteq> set (columns ?df2)"
        using keys by simp
      have i2: "frame_inv ?df2"
        by (rule frame_inv_append [OF inv])
      have s2: "successively (\<lambda>r r'. \<exists>rv. euler_step self dt r = Inr rv \<and>
            r' = reindex (columns ?df2) (clamp_row rv)) (rows ?df2)"
        using succ ne st by (auto simp: successively_append_iff)
      from IH [OF rec', THEN spec, THEN mp, OF refl, THEN mp, OF i2, THEN mp, OF k2,
          THEN mp, OF s2]
      show ?thesis by simp
    qed
  qed
qed

lemma euler_integrate_keep_positive_loop_rows:
  assumes "euler_integrate_keep_positive_loop self t_final dt t df = Some (Inr df')"
    and "frame_inv df"
    and "set (dict_keys (variables self)) \<subseteq> set (columns df)"
    and "length (rows df) = 1"
  shows "frame_inv df' \<and> columns df' = columns df \<and>
         successively (\<lambda>r r'. \<exists>rv. euler_step self dt r = Inr rv \<and>
            r' = reindex (columns df) (clamp_row rv)) (rows df')"
proof -
  from assms(4) obtain r where "rows df = [r]"
    by (cases "rows df") auto
  then have "successively (\<lambda>r r'. \<exists>rv. euler_step self dt r = Inr rv \<and>
            r' = reindex (columns df) (clamp_row rv)) (rows df)"
    by simp
  from euler_integrate_keep_positive_loop_rows_aux [OF assms(1), THEN spec, THEN mp, OF refl,
      THEN mp, OF assms(2), THEN mp, OF assms(3), THEN mp, OF this]
  show ?thesis .
qed

section \<open>The initial frame\<close>

lemma initial_frame_columns:
  "set (dict_keys (variables self)) \<subseteq>
     set (columns (pd_concat (pd_DataFrame_columns (dict_keys (variables self)))
                             (pd_DataFrame_dict init)))"
  by (simp add: initial_frame)

lemma initial_frame_columns_eq:
  "set (dict_keys init) \<subseteq> set (dict_keys (variables self)) \<Longrightarrow>
     set (columns (pd_concat (pd_DataFrame_columns (dict_keys (variables self)))
                             (pd_DataFrame_dict init))) = set (dict_keys (variables self))"
  by (auto simp: initial_frame)

lemma initial_frame_rows:
  "length (rows (pd_concat (pd_DataFrame_columns ks) (pd_DataFrame_dict init))) = 1"
  by (simp add: initial_frame)

lemma last_value_Inr:
  "last_value df c = Inr v \<Longrightarrow> dict_get (last (rows df)) c = Inr v"
  by (simp add: last_value_def split: if_splits)

lemma euler_integrate_Some:
  assumes "euler_integrate self init t_final dt = Some (Inr df, d')"
  shows "\<exists>t. last_value (pd_concat (pd_DataFrame_columns (dict_keys (variables self)))
                 (pd_DataFrame_dict d')) ''t'' = Inr t \<and>
             euler_integrate_loop self t_final dt t
               (pd_concat (pd_DataFrame_columns (dict_keys (variables self)))
                 (pd_DataFrame_dict d')) = Some (Inr df) \<and>
             d' = (if ''t'' \<notin> set (dict_keys init) then dict_set init ''t'' (Num 0) else init)"
  using assms by (auto simp: euler_integrate_def Let_def split: sum.splits if_splits)

lemma euler_integrate_keep_positive_Some:
  assumes "euler_integrate_keep_positive self init t_final dt = Some (Inr df)"
  shows "\<exists>t. last_value (pd_concat (pd_DataFrame_columns (dict_keys (variables self)))
                 (pd_DataFrame_dict init)) ''t'' = Inr t \<and>
             euler_integrate_keep_positive_loop self t_final dt t
               (pd_concat (pd_DataFrame_columns (dict_keys (variables self)))
                 (pd_DataFrame_dict init)) = Some (Inr df)"
  using assms by (auto simp: euler_integrate_keep_positive_def Let_def split: sum.splits)

section \<open>Columns of the trajectory\<close>

lemma example_keys: "dict_keys (variables example_model) = [''t'', ''x'', ''y'']"
  by (simp add: eval_defs)

text \<open>
  C8. When the keys of the initial snapshot are registered variable names, every row of
  the trajectory returned by either integrator has exactly the frame's columns, which
  are the registered variable names; and the derivatives returned by the evaluator
  have the registered variable names as their keys.
\<close>

theorem rows_have_registered_columns:
  assumes "set (dict_keys variables_initial) \<subseteq> set (dict_keys (variables self))"
    and "''t'' \<in> set (dict_keys (variables self))"
  shows "(euler_integrate self variables_initial t_final dt = Some (Inr df, d') \<longrightarrow>
            (\<forall>r \<in> set (rows df). dict_keys r = columns df \<and>
               set (dict_keys r) = set (dict_keys (variables self)))) \<and>
         (euler_integrate_keep_positive self variables_initial t_final dt = Some (Inr df2) \<longrightarrow>
            (\<forall>r \<in> set (rows df2). dict_keys r = columns df2 \<and>
               set (dict_keys r) = set (dict_keys (variables self)))) \<and>
         (compute_derivative self snapshot = Inr derivatives \<longrightarrow>
            set (dict_keys derivatives) = set (dict_keys (variables self)))"
proof (intro conjI impI ballI)
  fix r
  assume run: "euler_integrate self variables_initial t_final dt = Some (Inr df, d')"
    and r: "r \<in> set (rows df)"
  let ?f = "pd_concat (pd_DataFrame_columns (dict_keys (variables self))) (pd_DataFrame_dict d')"
  from euler_integrate_Some [OF run] obtain t where
    loop: "euler_integrate_loop self t_final dt t ?f = Some (Inr df)"
    and d': "d' = (if ''t'' \<notin> set (dict_keys variables_initial)
                   then dict_set variables_initial ''t'' (Num 0) else variables_initial)"
    by blast
  from d' assms have sub: "set (dict_keys d') \<subseteq> set (dict_keys (variables self))"
    by (auto simp: keys_dict_set)
  from euler_integrate_loop_frame [OF loop frame_inv_initial initial_frame_columns]
  have inv: "frame_inv df" and cols: "columns df = columns ?f" by simp_all
  from frame_inv_keys [OF inv r] show "dict_keys r = columns df" .
  with cols initial_frame_columns_eq [OF sub]
  show "set (dict_keys r) = set (dict_keys (variables self))" by simp
next
  fix r
  assume run: "euler_integrate_keep_positive self variables_initial t_final dt = Some (Inr df2)"
    and r: "r \<in> set (rows df2)"
  let ?f = "pd_concat (pd_DataFrame_columns (dict_keys (variables self)))
              (pd_DataFrame_dict variables_initial)"
  from euler_integrate_keep_positive_Some [OF run] obtain t where
    loop: "euler_integrate_keep_positive_loop self t_final dt t ?f = Some (Inr df2)"
    by blast
  from euler_integrate_keep_positive_loop_rows [OF loop frame_inv_initial initial_frame_columns
      initial_frame_rows]
  have inv: "frame_inv df2" and cols: "columns df2 = columns ?f" by simp_all
  from frame_inv_keys [OF inv r] show "dict_keys r = columns df2" .
  with cols initial_frame_columns_eq [OF assms(1)]
  show "set (dict_keys r) = set (dict_keys (variables self))" by simp
next
  assume "compute_derivative self snapshot = Inr derivatives"
  then show "set (dict_keys derivatives) = set (dict_keys (variables self))"
    by (rule compute_derivative_keys)
qed

theorem rows_have_registered_columns_witness:
  "map dict_keys (rows \<lparr>columns = [''t'', ''x'', ''y''],
                 rows = [[(''t'', Num 0), (''x'', Num 1), (''y'', Num 2)],
                         [(''t'', Num (1 / 10)), (''x'', Num (12 / 10)), (''y'', Num (- 8))]]\<rparr>)
     = [dict_keys (variables example_model), dict_keys (variables example_model)] \<and>
   euler_integrate example_model [(''x'', Num 1), (''y'', Num 2)] (1 / 10) (1 / 10) =
     Some (Inr \<lparr>columns = [''t'', ''x'', ''y''],
                 rows = [[(''t'', Num 0), (''x'', Num 1), (''y'', Num 2)],
                         [(''t'', Num (1 / 10)), (''x'', Num (12 / 10)), (''y'', Num (- 8))]]\<rparr>,
           [(''x'', Num 1), (''y'', Num 2), (''t'', Num 0)]) \<and>
   euler_integrate_keep_positive example_model [(''t'', Num 0), (''x'', Num 1)] (1 / 10) (1 / 10) =
     Some (Inr \<lparr>columns = [''t'', ''x'', ''y''],
                 rows = [[(''t'', Num 0), (''x'', Num 1), (''y'', NaN)],
                         [(''t'', Num (1 / 10)), (''x'', NaN), (''y'', NaN)]]\<rparr>) \<and>
   set (dict_keys [(''t'', Num 1), (''x'', Num 2), (''y'', Num (- 100))]) =
     set (dict_keys (variables example_model))"
proof -
  have h1: "set (dict_keys [(''x'', Num 1), (''y'', Num 2)]) \<subseteq> set (dict_keys (variables example_model))"
    by (simp add: example_keys) (simp add: dict_keys_def)
  have h2: "''t'' \<in> set (dict_keys (variables example_model))"
    by (simp add: example_keys)
  have e1: "euler_integrate example_model [(''x'', Num 1), (''y'', Num 2)] (1 / 10) (1 / 10) =
     Some (Inr \<lparr>columns = [''t'', ''x'', ''y''],
                 rows = [[(''t'', Num 0), (''x'', Num 1), (''y'', Num 2)],
                         [(''t'', Num (1 / 10)), (''x'', Num (12 / 10)), (''y'', Num (- 8))]]\<rparr>,
           [(''x'', Num 1), (''y'', Num 2), (''t'', Num 0)])"
    by (simp add: eval_defs euler_integrate_loop.simps)
  have e2: "euler_integrate_keep_positive example_model [(''t'', Num 0), (''x'', Num 1)] (1 / 10) (1 / 10) =
     Some (Inr \<lparr>columns = [''t'', ''x'', ''y''],
                 rows = [[(''t'', Num 0), (''x'', Num 1), (''y'', NaN)],
                         [(''t'', Num (1 / 10)), (''x'', NaN), (''y'', NaN)]]\<rparr>)"
    by (simp add: eval_defs euler_integrate_keep_positive_loop.simps)
  have e3: "compute_derivative example_model [(''t'', Num 0), (''x'', Num 1), (''y'', Num 2)] =
     Inr [(''t'', Num 1), (''x'', Num 2), (''y'', Num (- 100))]"
    by (simp add: eval_defs)
  from rows_have_registered_columns [OF h1 h2, of "1 / 10" "1 / 10" _ _ _
      "[(''t'', Num 0), (''x'', Num 1), (''y'', Num 2)]"] e1 e3
  have "set (dict_keys [(''t'', Num 1), (''x'', Num 2), (''y'', Num (- 100))]) =
     set (dict_keys (variables example_model))" by blast
  with e1 e2 show ?thesis by (simp add: example_keys) (simp add: dict_keys_def)
qed

section \<open>Time along the trajectory\<close>

text \<open>
  C5. With the default derivative of \<open>t\<close> and a positive step, in every trajectory that
  \<open>euler_integrate\<close> returns each row's \<open>t\<close> is a number and the next row's \<open>t\<close> is that
  number plus the step, hence strictly larger.
\<close>

theorem time_increases_by_step:
  assumes "default_time self" and "0 < dt"
    and "euler_integrate self variables_initial t_final dt = Some (Inr df, d')"
    and "Suc i < length (rows df)"
  shows "\<exists>a. dict_get (rows df ! i) ''t'' = Inr (Num a) \<and>
             dict_get (rows df ! Suc i) ''t'' = Inr (Num (a + dt)) \<and> a < a + dt"
proof -
  let ?f = "pd_concat (pd_DataFrame_columns (dict_keys (variables self))) (pd_DataFrame_dict d')"
  from euler_integrate_Some [OF assms(3)] obtain t where
    lv: "last_value ?f ''t'' = Inr t"
    and loop: "euler_integrate_loop self t_final dt t ?f = Some (Inr df)"
    by blast
  from euler_integrate_loop_rows [OF loop assms(1) frame_inv_initial initial_frame_columns
      last_value_Inr [OF lv] initial_frame_rows]
  have "successively (\<lambda>r r'. \<exists>a rv. dict_get r ''t'' = Inr (Num a) \<and> a < t_final \<and>
            euler_step self dt r = Inr rv \<and> r' = reindex (columns ?f) rv \<and>
            dict_get r' ''t'' = Inr (Num (a + dt))) (rows df)"
    by simp
  from successively_nth [OF this assms(4)] assms(2) show ?thesis by auto
qed

theorem time_increases_by_step_witness:
  "dict_get (rows \<lparr>columns = [''t'', ''x'', ''y''],
                 rows = [[(''t'', Num 0), (''x'', Num 1), (''y'', Num 2)],
                         [(''t'', Num (1 / 10)), (''x'', Num (12 / 10)), (''y'', Num (- 8))]]\<rparr> ! Suc 0)
      ''t'' = Inr (Num (0 + 1 / 10)) \<and>
   euler_integrate example_model [(''t'', Num 0), (''x'', Num 1), (''y'', Num 2)] (1 / 10) (1 / 10) =
     Some (Inr \<lparr>columns = [''t'', ''x'', ''y''],
                 rows = [[(''t'', Num 0), (''x'', Num 1), (''y'', Num 2)],
                         [(''t'', Num (1 / 10)), (''x'', Num (12 / 10)), (''y'', Num (- 8))]]\<rparr>,
           [(''t'', Num 0), (''x'', Num 1), (''y'', Num 2)])"
proof -
  have e: "euler_integrate example_model [(''t'', Num 0), (''x'', Num 1), (''y'', Num 2)] (1 / 10) (1 / 10) =
     Some (Inr \<lparr>columns = [''t'', ''x'', ''y''],
                 rows = [[(''t'', Num 0), (''x'', Num 1), (''y'', Num 2)],
                         [(''t'', Num (1 / 10)), (''x'', Num (12 / 10)), (''y'', Num (- 8))]]\<rparr>,
           [(''t'', Num 0), (''x'', Num 1), (''y'', Num 2)])"
    by (simp add: eval_defs euler_integrate_loop.simps)
  have p: "(0::real) < 1 / 10" by simp
  from time_increases_by_step [OF default_time_example p e, of 0]
  obtain a where "dict_get [(''t'', Num 0), (''x'', Num 1), (''y'', Num 2)] ''t'' = Inr (Num a)"
    and "dict_get [(''t'', Num (1 / 10)), (''x'', Num (12 / 10)), (''y'', Num (- 8))] ''t''
           = Inr (Num (a + 1 / 10))"
    by auto
  then have "dict_get [(''t'', Num (1 / 10)), (''x'', Num (12 / 10)), (''y'', Num (- 8))] ''t''
           = Inr (Num (0 + 1 / 10))"
    by (simp add: dict_get_def)
  with e show ?thesis by simp
qed

section \<open>The clamp of euler_integrate_keep_positive\<close>

text \<open>
  C1, as the code has it. In every trajectory that \<open>euler_integrate_keep_positive\<close>
  returns, the value of a registered variable in a row after the first is the value
  after the step, replaced by 0 when it compares below \<open>1e-14\<close> and kept otherwise. So
  \<open>5e-15\<close> becomes 0, and so does \<open>- 3\<close>.
\<close>

theorem keep_positive_zeroes_below_threshold:
  assumes "euler_integrate_keep_positive self variables_initial t_final dt = Some (Inr df)"
    and "Suc i < length (rows df)"
    and "variable \<in> set (dict_keys (variables self))"
  shows "\<exists>result_values post.
           euler_step self dt (rows df ! i) = Inr result_values \<and>
           dict_get result_values variable = Inr post \<and>
           dict_get (rows df ! Suc i) variable =
             Inr (if cell_less post (Num (1 / 10 ^ 14)) then Num 0 else post) \<and>
           (post = Num (5 / 10 ^ 15) \<or> post = Num (- 3) \<longrightarrow>
              dict_get (rows df ! Suc i) variable = Inr (Num 0))"
proof -
  let ?f = "pd_concat (pd_DataFrame_columns (dict_keys (variables self)))
              (pd_DataFrame_dict variables_initial)"
  from euler_integrate_keep_positive_Some [OF assms(1)] obtain t where
    loop: "euler_integrate_keep_positive_loop self t_final dt t ?f = Some (Inr df)"
    by blast
  from euler_integrate_keep_positive_loop_rows [OF loop frame_inv_initial initial_frame_columns
      initial_frame_rows]
  have "successively (\<lambda>r r'. \<exists>rv. euler_step self dt r = Inr rv \<and>
            r' = reindex (columns ?f) (clamp_row rv)) (rows df)"
    by simp
  from successively_nth [OF this assms(2)] obtain rv where
    st: "euler_step self dt (rows df ! i) = Inr rv"
    and nxt: "rows df ! Suc i = reindex (columns ?f) (clamp_row rv)"
    by blast
  from assms(3) euler_step_keys [OF st] obtain post where post: "map_of rv variable = Some post"
    by (metis map_of_None_keys not_None_eq)
  from assms(3) initial_frame_columns [of self variables_initial]
  have col: "variable \<in> set (columns ?f)" by blast
  have "dict_get (rows df ! Suc i) variable = Inr (clamp_cell post)"
    unfolding nxt using col post
    by (simp add: dict_get_Inr map_of_reindex map_of_clamp_row)
  with st post show ?thesis
    by (auto simp: dict_get_Inr clamp_cell_def)
qed

theorem keep_positive_zeroes_below_threshold_witness:
  "euler_integrate_keep_positive example_model
       [(''t'', Num 0), (''x'', Num 1), (''y'', Num (- 4))] 1 1 =
     Some (Inr \<lparr>columns = [''t'', ''x'', ''y''],
                 rows = [[(''t'', Num 0), (''x'', Num 1), (''y'', Num (- 4))],
                         [(''t'', Num 1), (''x'', Num 0), (''y'', Num 0)]]\<rparr>) \<and>
   euler_step example_model 1 [(''t'', Num 0), (''x'', Num 1), (''y'', Num (- 4))] =
     Inr [(''t'', Num 1), (''x'', Num (- 3)), (''y'', Num (- 104))] \<and>
   dict_get [(''t'', Num 1), (''x'', Num 0), (''y'', Num 0)] ''x'' = Inr (Num 0)"
proof -
  have e: "euler_integrate_keep_positive example_model
       [(''t'', Num 0), (''x'', Num 1), (''y'', Num (- 4))] 1 1 =
     Some (Inr \<lparr>columns = [''t'', ''x'', ''y''],
                 rows = [[(''t'', Num 0), (''x'', Num 1), (''y'', Num (- 4))],
                         [(''t'', Num 1), (''x'', Num 0), (''y'', Num 0)]]\<rparr>)"
    by (simp add: eval_defs euler_integrate_keep_positive_loop.simps)
  have s: "euler_step example_model 1 [(''t'', Num 0), (''x'', Num 1), (''y'', Num (- 4))] =
     Inr [(''t'', Num 1), (''x'', Num (- 3)), (''y'', Num (- 104))]"
    by (simp add: eval_defs)
  have k: "''x'' \<in> set (dict_keys (variables example_model))"
    by (simp add: example_keys)
  from keep_positive_zeroes_below_threshold [OF e _ k, of 0] s
  have "dict_get [(''t'', Num 1), (''x'', Num 0), (''y'', Num 0)] ''x'' = Inr (Num 0)"
    by (auto simp: dict_get_def)
  with e s show ?thesis by simp
qed

text \<open>
  The claim as the specification states it fails: in this run the value of \<open>x\<close> after
  the step is \<open>- 3\<close>, and the row that the clamped integrator records holds 0.
\<close>

theorem negative_value_is_zeroed:
  "euler_step example_model 1 [(''t'', Num 0), (''x'', Num 1), (''y'', Num (- 4))] =
     Inr [(''t'', Num 1), (''x'', Num (- 3)), (''y'', Num (- 104))] \<and>
   euler_integrate_keep_positive example_model
       [(''t'', Num 0), (''x'', Num 1), (''y'', Num (- 4))] 1 1 =
     Some (Inr \<lparr>columns = [''t'', ''x'', ''y''],
                 rows = [[(''t'', Num 0), (''x'', Num 1), (''y'', Num (- 4))],
                         [(''t'', Num 1), (''x'', Num 0), (''y'', Num 0)]]\<rparr>) \<and>
   clamp_cell (Num (- 3)) \<noteq> Num (- 3)"
  by (simp add: eval_defs euler_integrate_keep_positive_loop.simps)

section \<open>An initial snapshot without t\<close>

text \<open>
  The frame that \<open>euler_integrate_keep_positive\<close> starts from has the registered
  variables as columns, \<open>t\<close> among them, so reading \<open>t\<close> does not fail: when the initial
  snapshot has no \<open>t\<close>, the cell read is \<open>NaN\<close>, the loop condition is false, and the call
  returns the frame with the initial row alone. \<open>euler_integrate\<close> on the same snapshot
  behaves as on the snapshot with \<open>t\<close> mapped to 0 appended.
\<close>

lemma missing_time_keep_positive_returns_initial_row:
  assumes "''t'' \<in> set (dict_keys (variables self))"
    and "''t'' \<notin> set (dict_keys variables_initial)"
  shows "euler_integrate_keep_positive self variables_initial t_final dt =
           Some (Inr (pd_concat (pd_DataFrame_columns (dict_keys (variables self)))
                                (pd_DataFrame_dict variables_initial))) \<and>
         last_value (pd_concat (pd_DataFrame_columns (dict_keys (variables self)))
                               (pd_DataFrame_dict variables_initial)) ''t'' = Inr NaN \<and>
         length (rows (pd_concat (pd_DataFrame_columns (dict_keys (variables self)))
                                 (pd_DataFrame_dict variables_initial))) = 1 \<and>
         euler_integrate self variables_initial t_final dt =
           euler_integrate self (variables_initial @ [(''t'', Num 0)]) t_final dt"
proof -
  let ?f = "pd_concat (pd_DataFrame_columns (dict_keys (variables self)))
              (pd_DataFrame_dict variables_initial)"
  from assms(2) have none: "map_of variables_initial ''t'' = None"
    by (simp add: map_of_None_keys)
  have lv: "last_value ?f ''t'' = Inr NaN"
    using assms(1) none
    by (simp add: initial_frame last_value_def dict_get_Inr map_of_reindex)
  have loop: "euler_integrate_keep_positive_loop self t_final dt NaN ?f = Some (Inr ?f)"
    by (subst euler_integrate_keep_positive_loop.simps) simp
  have run: "euler_integrate_keep_positive self variables_initial t_final dt = Some (Inr ?f)"
    by (simp add: euler_integrate_keep_positive_def Let_def lv loop)
  have "''t'' \<in> set (dict_keys (variables_initial @ [(''t'', Num 0)]))"
    by (simp add: dict_keys_def)
  then have "euler_integrate self variables_initial t_final dt =
           euler_integrate self (variables_initial @ [(''t'', Num 0)]) t_final dt"
    using assms(2) by (simp add: euler_integrate_def dict_set_new)
  with run lv show ?thesis by (simp add: initial_frame_rows)
qed

lemma missing_time_keep_positive_returns_initial_row_example:
  "euler_integrate_keep_positive example_model [(''x'', Num 1), (''y'', Num 2)] 1 (1 / 10) =
     Some (Inr \<lparr>columns = [''t'', ''x'', ''y''],
                 rows = [[(''t'', NaN), (''x'', Num 1), (''y'', Num 2)]]\<rparr>) \<and>
   euler_integrate example_model [(''x'', Num 1), (''y'', Num 2)] (1 / 10) (1 / 10) =
     euler_integrate example_model ([(''x'', Num 1), (''y'', Num 2)] @ [(''t'', Num 0)])
       (1 / 10) (1 / 10)"
proof -
  have h1: "''t'' \<in> set (dict_keys (variables example_model))"
    by (simp add: example_keys)
  have h2: "''t'' \<notin> set (dict_keys [(''x'', Num 1), (''y'', Num 2)])"
    by (simp add: dict_keys_def)
  have f: "pd_concat (pd_DataFrame_columns (dict_keys (variables example_model)))
             (pd_DataFrame_dict [(''x'', Num 1), (''y'', Num 2)]) =
           \<lparr>columns = [''t'', ''x'', ''y''],
             rows = [[(''t'', NaN), (''x'', Num 1), (''y'', Num 2)]]\<rparr>"
    by (simp add: eval_defs)
  from missing_time_keep_positive_returns_initial_row [OF h1 h2, of 1 "1 / 10"]
    missing_time_keep_positive_returns_initial_row [OF h1 h2, of "1 / 10" "1 / 10"]
  show ?thesis unfolding f by simp
qed

text \<open>
  C3. On the snapshot \<open>{x: 1, y: 2}\<close>, which has no \<open>t\<close>, \<open>euler_integrate_keep_positive\<close>
  does not fail with \<open>KeyError\<close>, and it does not integrate either: it returns the
  initial row alone, with \<open>NaN\<close> as its time. \<open>euler_integrate\<close>, which lines 59 and 60
  give the default that the clamped integrator lacks, starts the same snapshot at
  time 0 and takes its steps.
\<close>

theorem missing_time_keep_positive_no_error:
  "euler_integrate_keep_positive example_model [(''x'', Num 1), (''y'', Num 2)] 1 (1 / 10) =
     Some (Inr \<lparr>columns = [''t'', ''x'', ''y''],
                 rows = [[(''t'', NaN), (''x'', Num 1), (''y'', Num 2)]]\<rparr>) \<and>
   euler_integrate_keep_positive example_model [(''x'', Num 1), (''y'', Num 2)] 1 (1 / 10) \<noteq>
     Some (Inl (KeyError ''t'')) \<and>
   euler_integrate example_model [(''x'', Num 1), (''y'', Num 2)] (1 / 10) (1 / 10) =
     Some (Inr \<lparr>columns = [''t'', ''x'', ''y''],
                 rows = [[(''t'', Num 0), (''x'', Num 1), (''y'', Num 2)],
                         [(''t'', Num (1 / 10)), (''x'', Num (12 / 10)), (''y'', Num (- 8))]]\<rparr>,
           [(''x'', Num 1), (''y'', Num 2), (''t'', Num 0)])"
  by (simp add: eval_defs euler_integrate_keep_positive_loop.simps euler_integrate_loop.simps)

section \<open>Termination of euler_integrate\<close>








section \<open>Numbers of the program's format\<close>

lemma double_cross_multiply:
  assumes "(n :: real) = real_of_int m * 2 ^ a / 2 ^ b" and "n = real_of_int k"
  shows "k * 2 ^ b = m * (2::int) ^ a"
proof -
  from assms have "real_of_int k * 2 ^ b = real_of_int m * 2 ^ a"
    by (simp add: field_simps)
  then have "real_of_int (k * 2 ^ b) = real_of_int (m * 2 ^ a)" by simp
  then show ?thesis by (simp only: of_int_eq_iff)
qed

lemma double_mantissa_small: "k * 2 ^ (a + c) = m * (2::int) ^ a \<Longrightarrow> m = k * 2 ^ c"
  by (simp add: power_add)

lemma double_mantissa_even: "k * (2::int) ^ b = m * 2 ^ (b + Suc c) \<Longrightarrow> even k"
proof -
  assume "k * (2::int) ^ b = m * 2 ^ (b + Suc c)"
  then have "k * (2::int) ^ b = (m * 2 ^ Suc c) * 2 ^ b" by (simp add: power_add)
  then have "k = m * 2 ^ Suc c" by simp
  then show "even k" by simp
qed

lemma double_mantissa_grows: "(2::int) ^ 53 \<le> k \<Longrightarrow> k \<le> k * 2 ^ c"
proof -
  assume a: "(2::int) ^ 53 \<le> k"
  have "(1::int) \<le> 2 ^ c" by simp
  moreover from a have "0 \<le> k" by simp
  ultimately have "k * 1 \<le> k * 2 ^ c" by (rule mult_left_mono)
  then show ?thesis by simp
qed

text \<open>
  An odd integer of \<open>2 ^ 53\<close> or more is not a value of the format. So the sum
  \<open>1e16 + 1\<close> is rounded in the program (to \<open>1e16\<close>, and the loop that adds the step 1
  at time \<open>1e16\<close> never advances); such a run is outside the termination theorem.
\<close>

lemma odd_beyond_53_bits_not_double:
  assumes "odd k" and "2 ^ 53 \<le> k"
  shows "\<not> is_double (real_of_int k)"
proof
  assume "is_double (real_of_int k)"
  then obtain m :: int and a b :: nat where m: "\<bar>m\<bar> < 2 ^ 53"
    and eq: "real_of_int k = real_of_int m * 2 ^ a / 2 ^ b"
    unfolding is_double_def by blast
  from double_cross_multiply [OF eq refl] have ieq: "k * 2 ^ b = m * (2::int) ^ a" .
  show False
  proof (cases "a \<le> b")
    case True
    then obtain c where b: "b = a + c" using le_Suc_ex by blast
    from ieq [unfolded b] have mk: "m = k * 2 ^ c" by (rule double_mantissa_small)
    have "k \<le> m" unfolding mk by (rule double_mantissa_grows [OF assms(2)])
    with assms(2) have big: "2 ^ 53 \<le> m" by (rule order_trans)
    from m have "m < 2 ^ 53" by (simp only: abs_less_iff)
    with big show False by (meson not_le)
  next
    case False
    then have "b < a" by simp
    then obtain c where "a = Suc (b + c)" using less_imp_Suc_add by blast
    then have a: "a = b + Suc c" by simp
    from ieq [unfolded a] have "even k" by (rule double_mantissa_even)
    with assms(1) show False by simp
  qed
qed

lemma absorbed_step_not_double: "\<not> is_double (10 ^ 16 + 1)"
proof -
  have "\<not> is_double (real_of_int (10 ^ 16 + 1))"
    by (rule odd_beyond_53_bits_not_double) simp_all
  then show ?thesis by simp
qed

section \<open>The grid sampler\<close>

lemma length_np_linspace: "np_linspace start stop num = Inr xs \<Longrightarrow> length xs = nat num"
  by (auto simp: np_linspace_def split: if_splits)

lemma np_linspace_succeeds: "0 \<le> num \<Longrightarrow> \<exists>xs. np_linspace start stop num = Inr xs"
  by (simp add: np_linspace_def)

lemma meshgrid_row_fails:
  "j \<in> set js \<Longrightarrow> arr_get Xv i j = Inl e \<Longrightarrow>
     \<exists>e'. meshgrid_row self t Xv Hv i js acc = Inl e'"
proof (induction js arbitrary: acc)
  case Nil
  then show ?case by simp
next
  case (Cons k js)
  obtain Xdot Ydot where acc: "acc = (Xdot, Ydot)" by (cases acc)
  show ?case
  proof (cases "k = j")
    case True
    with Cons.prems(2) acc show ?thesis by simp
  next
    case False
    with Cons.prems have "j \<in> set js" by simp
    from Cons.IH [OF this Cons.prems(2)] acc show ?thesis
      by (auto split: sum.splits)
  qed
qed

lemma meshgrid_rows_fails:
  "i \<in> set is \<Longrightarrow> j \<in> set js \<Longrightarrow> arr_get Xv i j = Inl e \<Longrightarrow>
     \<exists>e'. meshgrid_rows self t Xv Hv is js acc = Inl e'"
proof (induction "is" arbitrary: acc)
  case Nil
  then show ?case by simp
next
  case (Cons k "is")
  show ?case
  proof (cases "k = i")
    case True
    from meshgrid_row_fails [OF Cons.prems(2,3), of self t Hv acc] True show ?thesis
      by auto
  next
    case False
    with Cons.prems have "i \<in> set is" by simp
    from Cons.IH [OF this Cons.prems(2,3)] show ?thesis
      by (auto split: sum.splits)
  qed
qed

lemma create_meshgrid_derivatives_not_square:
  assumes "1 \<le> n_X" and "1 \<le> n_Y" and "n_X \<noteq> n_Y"
  shows "\<exists>e. create_meshgrid_derivatives self n_X n_Y Xlim Ylim t = Inl e"
proof -
  from assms obtain xs where xs: "np_linspace (fst Xlim) (snd Xlim) n_X = Inr xs"
    using np_linspace_succeeds [of n_X] by auto
  from assms obtain ys where ys: "np_linspace (fst Ylim) (snd Ylim) n_Y = Inr ys"
    using np_linspace_succeeds [of n_Y] by auto
  from length_np_linspace [OF xs] length_np_linspace [OF ys]
  have lx: "length xs = nat n_X" and ly: "length ys = nat n_Y" by simp_all
  let ?Xv = "replicate (length ys) xs"
  let ?Hv = "map (\<lambda>y. replicate (length xs) y) ys"
  have "\<exists>i j. i \<in> set [0..<nat n_X] \<and> j \<in> set [0..<nat n_Y] \<and> arr_get ?Xv i j = Inl IndexError"
  proof (cases "n_X < n_Y")
    case True
    with assms lx ly have "0 \<in> set [0..<nat n_X]" "nat n_X \<in> set [0..<nat n_Y]"
      "arr_get ?Xv 0 (nat n_X) = Inl IndexError"
      by (auto simp: arr_get_def)
    then show ?thesis by blast
  next
    case False
    with assms lx ly have "nat n_Y \<in> set [0..<nat n_X]" "0 \<in> set [0..<nat n_Y]"
      "arr_get ?Xv (nat n_Y) 0 = Inl IndexError"
      by (auto simp: arr_get_def)
    then show ?thesis by blast
  qed
  then obtain i j where "i \<in> set [0..<nat n_X]" "j \<in> set [0..<nat n_Y]"
    "arr_get ?Xv i j = Inl IndexError"
    by blast
  from meshgrid_rows_fails [OF this, of self t ?Hv "(np_empty_like ?Xv, np_empty_like ?Hv)"]
  show ?thesis
    by (auto simp: create_meshgrid_derivatives_def xs ys np_meshgrid_def)
qed

text \<open>
  C2. The arrays that \<open>np.meshgrid\<close> returns have \<open>n_Y\<close> rows and \<open>n_X\<close> columns, and the
  loops index them with the row index below \<open>n_X\<close> and the column index below \<open>n_Y\<close>.
  On a grid of 2 by 3 points the sampler raises \<open>IndexError\<close> and returns no arrays;
  on the grid of 3 by 2 points as well. On a square grid it returns, and then every
  entry of the derivative arrays has been written with the derivative at its grid point
  (\<open>create_meshgrid_derivatives_returns\<close> below).
\<close>

theorem create_meshgrid_derivatives_2_by_3:
  "create_meshgrid_derivatives example_model2D 2 3 (0, 1) (0, 1) 0 = Inl IndexError \<and>
   create_meshgrid_derivatives example_model2D 3 2 (0, 1) (0, 1) 0 = Inl IndexError \<and>
   create_meshgrid_derivatives example_model2D 2 2 (0, 1) (0, 1) 0 =
     Inr ([[Num 0, Num 1], [Num 0, Num 1]], [[Num 0, Num 0], [Num 1, Num 1]],
          [[Num 0, Num 0], [Num 1, Num 1]], [[Num 0, Num (- 100)], [Num 0, Num (- 100)]])"
  by code_simp

lemma arr_set_shape: "arr_set a i j v = Inr a' \<Longrightarrow> map length a' = map length a"
  by (auto simp: arr_set_def map_update list_update_same_conv split: if_splits)

lemma arr_set_nth:
  "arr_set a i j v = Inr a' \<Longrightarrow> a' ! i' ! j' = (if i' = i \<and> j' = j then v else a ! i' ! j')"
  by (auto simp: arr_set_def nth_list_update split: if_splits)

lemma meshgrid_row_correct:
  assumes "meshgrid_row self t Xv Hv i js (Xdot, Ydot) = Inr (Xdot', Ydot')" and "distinct js"
  shows "map length Xdot' = map length Xdot \<and> map length Ydot' = map length Ydot \<and>
         (\<forall>j \<in> set js. \<exists>x y ders. arr_get Xv i j = Inr x \<and> arr_get Hv i j = Inr y \<and>
            compute_derivative self (var_dict self t x y) = Inr ders \<and>
            dict_get ders (variable_x self) = Inr (Xdot' ! i ! j) \<and>
            dict_get ders (variable_y self) = Inr (Ydot' ! i ! j)) \<and>
         (\<forall>i' j'. i' \<noteq> i \<or> j' \<notin> set js \<longrightarrow>
            Xdot' ! i' ! j' = Xdot ! i' ! j' \<and> Ydot' ! i' ! j' = Ydot ! i' ! j')"
  using assms
proof (induction js arbitrary: Xdot Ydot)
  case Nil
  then show ?case by simp
next
  case (Cons j js)
  from Cons.prems(1) obtain x y ders dy Y1 dx X1 where
    x: "arr_get Xv i j = Inr x" and y: "arr_get Hv i j = Inr y"
    and ders: "compute_derivative self (var_dict self t x y) = Inr ders"
    and dy: "dict_get ders (variable_y self) = Inr dy" and Y1: "arr_set Ydot i j dy = Inr Y1"
    and dx: "dict_get ders (variable_x self) = Inr dx" and X1: "arr_set Xdot i j dx = Inr X1"
    and rest: "meshgrid_row self t Xv Hv i js (X1, Y1) = Inr (Xdot', Ydot')"
    by (auto split: sum.splits)
  from Cons.prems(2) have d: "distinct js" and nj: "j \<notin> set js" by simp_all
  note IH = Cons.IH [OF rest d]
  from IH have sh: "map length Xdot' = map length X1" "map length Ydot' = map length Y1"
    and vis: "\<forall>k \<in> set js. \<exists>x y ders. arr_get Xv i k = Inr x \<and> arr_get Hv i k = Inr y \<and>
            compute_derivative self (var_dict self t x y) = Inr ders \<and>
            dict_get ders (variable_x self) = Inr (Xdot' ! i ! k) \<and>
            dict_get ders (variable_y self) = Inr (Ydot' ! i ! k)"
    and other: "\<forall>i' j'. i' \<noteq> i \<or> j' \<notin> set js \<longrightarrow>
            Xdot' ! i' ! j' = X1 ! i' ! j' \<and> Ydot' ! i' ! j' = Y1 ! i' ! j'"
    by blast+
  from other nj have "Xdot' ! i ! j = X1 ! i ! j" "Ydot' ! i ! j = Y1 ! i ! j" by simp_all
  with arr_set_nth [OF X1, of i j] arr_set_nth [OF Y1, of i j]
  have here: "Xdot' ! i ! j = dx" "Ydot' ! i ! j = dy" by simp_all
  have "\<forall>i' j'. i' \<noteq> i \<or> j' \<notin> set (j # js) \<longrightarrow>
            Xdot' ! i' ! j' = Xdot ! i' ! j' \<and> Ydot' ! i' ! j' = Ydot ! i' ! j'"
  proof (intro allI impI)
    fix i' j'
    assume a: "i' \<noteq> i \<or> j' \<notin> set (j # js)"
    then have "i' \<noteq> i \<or> j' \<notin> set js" and "\<not> (i' = i \<and> j' = j)" by auto
    with other arr_set_nth [OF X1, of i' j'] arr_set_nth [OF Y1, of i' j']
    show "Xdot' ! i' ! j' = Xdot ! i' ! j' \<and> Ydot' ! i' ! j' = Ydot ! i' ! j'"
      by simp
  qed
  moreover have "\<forall>k \<in> set (j # js). \<exists>x y ders. arr_get Xv i k = Inr x \<and> arr_get Hv i k = Inr y \<and>
            compute_derivative self (var_dict self t x y) = Inr ders \<and>
            dict_get ders (variable_x self) = Inr (Xdot' ! i ! k) \<and>
            dict_get ders (variable_y self) = Inr (Ydot' ! i ! k)"
    using vis x y ders dx dy here by auto
  moreover have "map length Xdot' = map length Xdot" "map length Ydot' = map length Ydot"
    using sh arr_set_shape [OF X1] arr_set_shape [OF Y1] by simp_all
  ultimately show ?case by blast
qed

lemma meshgrid_rows_correct:
  assumes "meshgrid_rows self t Xv Hv is js (Xdot, Ydot) = Inr (Xdot', Ydot')"
    and "distinct is" and "distinct js"
  shows "map length Xdot' = map length Xdot \<and> map length Ydot' = map length Ydot \<and>
         (\<forall>i \<in> set is. \<forall>j \<in> set js. \<exists>x y ders.
            arr_get Xv i j = Inr x \<and> arr_get Hv i j = Inr y \<and>
            compute_derivative self (var_dict self t x y) = Inr ders \<and>
            dict_get ders (variable_x self) = Inr (Xdot' ! i ! j) \<and>
            dict_get ders (variable_y self) = Inr (Ydot' ! i ! j)) \<and>
         (\<forall>i' j'. i' \<notin> set is \<longrightarrow>
            Xdot' ! i' ! j' = Xdot ! i' ! j' \<and> Ydot' ! i' ! j' = Ydot ! i' ! j')"
  using assms(1,2)
proof (induction "is" arbitrary: Xdot Ydot)
  case Nil
  then show ?case by simp
next
  case (Cons i "is")
  from Cons.prems(1) obtain X1 Y1 where
    row: "meshgrid_row self t Xv Hv i js (Xdot, Ydot) = Inr (X1, Y1)"
    and rest: "meshgrid_rows self t Xv Hv is js (X1, Y1) = Inr (Xdot', Ydot')"
    by (auto split: sum.splits)
  from Cons.prems(2) have d: "distinct is" and ni: "i \<notin> set is" by simp_all
  note R = meshgrid_row_correct [OF row assms(3)]
  note IH = Cons.IH [OF rest d]
  from IH have other: "\<forall>i' j'. i' \<notin> set is \<longrightarrow>
            Xdot' ! i' ! j' = X1 ! i' ! j' \<and> Ydot' ! i' ! j' = Y1 ! i' ! j'"
    by blast
  have "\<forall>k \<in> set (i # is). \<forall>j \<in> set js. \<exists>x y ders.
            arr_get Xv k j = Inr x \<and> arr_get Hv k j = Inr y \<and>
            compute_derivative self (var_dict self t x y) = Inr ders \<and>
            dict_get ders (variable_x self) = Inr (Xdot' ! k ! j) \<and>
            dict_get ders (variable_y self) = Inr (Ydot' ! k ! j)"
  proof (intro ballI)
    fix k j
    assume k: "k \<in> set (i # is)" and j: "j \<in> set js"
    show "\<exists>x y ders. arr_get Xv k j = Inr x \<and> arr_get Hv k j = Inr y \<and>
            compute_derivative self (var_dict self t x y) = Inr ders \<and>
            dict_get ders (variable_x self) = Inr (Xdot' ! k ! j) \<and>
            dict_get ders (variable_y self) = Inr (Ydot' ! k ! j)"
    proof (cases "k = i")
      case True
      with other ni have "Xdot' ! k ! j = X1 ! i ! j" "Ydot' ! k ! j = Y1 ! i ! j" by simp_all
      with R j True show ?thesis by simp
    next
      case False
      with k have "k \<in> set is" by simp
      with IH j show ?thesis by blast
    qed
  qed
  moreover have "\<forall>i' j'. i' \<notin> set (i # is) \<longrightarrow>
            Xdot' ! i' ! j' = Xdot ! i' ! j' \<and> Ydot' ! i' ! j' = Ydot ! i' ! j'"
    using other R by simp
  moreover have "map length Xdot' = map length Xdot" "map length Ydot' = map length Ydot"
    using IH R by simp_all
  ultimately show ?case by blast
qed

lemma create_meshgrid_derivatives_returns:
  assumes "create_meshgrid_derivatives self n_X n_Y Xlim Ylim t = Inr (Xv, Hv, Xdot, Ydot)"
  shows "map length Xv = replicate (nat n_Y) (nat n_X) \<and>
         map length Hv = replicate (nat n_Y) (nat n_X) \<and>
         map length Xdot = replicate (nat n_Y) (nat n_X) \<and>
         map length Ydot = replicate (nat n_Y) (nat n_X) \<and>
         (\<forall>i < nat n_X. \<forall>j < nat n_Y. \<exists>x y ders.
            arr_get Xv i j = Inr x \<and> arr_get Hv i j = Inr y \<and>
            compute_derivative self (var_dict self t x y) = Inr ders \<and>
            dict_get ders (variable_x self) = Inr (Xdot ! i ! j) \<and>
            dict_get ders (variable_y self) = Inr (Ydot ! i ! j))"
proof -
  from assms obtain xs ys where xs: "np_linspace (fst Xlim) (snd Xlim) n_X = Inr xs"
    and ys: "np_linspace (fst Ylim) (snd Ylim) n_Y = Inr ys"
    and Xv: "Xv = replicate (length ys) xs" and Hv: "Hv = map (\<lambda>y. replicate (length xs) y) ys"
    and rows: "meshgrid_rows self t Xv Hv [0..<nat n_X] [0..<nat n_Y]
                 (np_empty_like Xv, np_empty_like Hv) = Inr (Xdot, Ydot)"
    by (auto simp: create_meshgrid_derivatives_def np_meshgrid_def split: sum.splits)
  from length_np_linspace [OF xs] length_np_linspace [OF ys]
  have lx: "length xs = nat n_X" and ly: "length ys = nat n_Y" by simp_all
  have sX: "map length Xv = replicate (nat n_Y) (nat n_X)"
    by (simp add: Xv lx ly)
  have sH: "map length Hv = replicate (nat n_Y) (nat n_X)"
    by (simp add: Hv lx ly comp_def map_replicate_const)
  have e: "map length (np_empty_like Xv) = map length Xv" "map length (np_empty_like Hv) = map length Hv"
    by (simp_all add: np_empty_like_def comp_def)
  from meshgrid_rows_correct [OF rows] e sX sH
  show ?thesis by auto
qed

end
